theory Spec2Isabelle
  imports
    Complex_Main
    "HOL-Library.Multiset"
    "HOL-Library.Sublist"
    "HOL-Library.AList"
    "HOL-Library.Char_ord"
    "HOL-Library.List_Lexorder"
    "HOL-Library.Product_Lexorder"
begin

section \<open>Downloads folder cleanup agent: a shallow embedding\<close>

text \<open>
  The program is \<^verbatim>\<open>src/download_cleanup_agent.py\<close>. It scans the Downloads folder,
  filters out the files the operator marked as "keep", asks a language model which of the
  remaining files can be deleted, lets the operator tick files to delete (with a yes/no
  confirmation) and files to keep, and loops.

  Python values are modelled as follows: a \<^verbatim>\<open>str\<close> is a \<open>string\<close> (its characters are the
  model's characters, and the order on strings is the lexicographic order on them, as
  Python's is on code points), a file-information
  dictionary built by the scanner is a record, a value decoded from JSON is a value of the
  datatype \<open>json\<close>, an exception is a value of \<open>pyerr\<close>, and a function with an effect takes
  the state of the world and returns the new state beside its result.
\<close>

subsection \<open>File information and the kept-files filter\<close>

text \<open>
  The dictionary built per directory entry by \<^verbatim>\<open>scan_downloads_folder\<close>. \<open>size_mb\<close> is
  the size in MiB rounded to two decimals, kept as the exact decimal it denotes;
  \<open>modified_date\<close> is the ISO-8601 text of the modification time.
\<close>

record file_info =
  name :: string
  path :: string
  size_bytes :: nat
  size_mb :: rat
  extension :: string
  modified_date :: string
  is_file :: bool
  is_dir :: bool

text \<open>\<^verbatim>\<open>return [f for f in files if f["name"] not in kept_filenames]\<close>\<close>

definition filter_kept_files :: "file_info list \<Rightarrow> string set \<Rightarrow> file_info list" where
  "filter_kept_files files kept_filenames = [f \<leftarrow> files. name f \<notin> kept_filenames]"

subsection \<open>The rendering of the file list for the prompt\<close>

text \<open>
  \<^verbatim>\<open>sorted(files, key=lambda x: (-x["size_bytes"], x["modified_date"]))\<close>: Python's
  \<^verbatim>\<open>sorted\<close> is stable and compares the key tuples lexicographically, as \<open>sort_key\<close> does on
  the lexicographic order of pairs.
\<close>

definition prompt_key :: "file_info \<Rightarrow> int \<times> string" where
  "prompt_key x = (- int (size_bytes x), modified_date x)"

definition sorted_files :: "file_info list \<Rightarrow> file_info list" where
  "sorted_files files = sort_key prompt_key files"

text \<open>
  One line of the rendering. The source builds the text
  \<^verbatim>\<open>"{item_type}: {name} | Size: {size_mb} MB | Modified: {modified_date[:10]} | Extension: {extension or 'none'}"\<close>;
  the model keeps the five parts of the line apart instead of gluing them (the decimal
  text of a float is not modelled). The lines are then joined with newlines, in list order.
\<close>

datatype item_type = Folder | File

record prompt_line =
  line_type :: item_type
  line_name :: string
  line_size_mb :: rat
  line_modified :: string
  line_extension :: string

definition format_line :: "file_info \<Rightarrow> prompt_line" where
  "format_line f =
     \<lparr> line_type = (if is_dir f then Folder else File),
       line_name = name f,
       line_size_mb = size_mb f,
       line_modified = take 10 (modified_date f),
       line_extension = (if extension f = [] then ''none'' else extension f) \<rparr>"

definition format_files_for_prompt :: "file_info list \<Rightarrow> prompt_line list" where
  "format_files_for_prompt files = map format_line (sorted_files files)"

text \<open>The order the claim describes: larger first, and among equal sizes older first.\<close>

definition before_in_prompt :: "file_info \<Rightarrow> file_info \<Rightarrow> bool" where
  "before_in_prompt a b =
     (size_bytes a > size_bytes b \<or>
      (size_bytes a = size_bytes b \<and> modified_date a \<le> modified_date b))"

text \<open>The three entries of the spec's example.\<close>

definition entry :: "string \<Rightarrow> nat \<Rightarrow> string \<Rightarrow> file_info" where
  "entry n sz day =
     \<lparr> name = n, path = ''/home/u/Downloads/'' @ n, size_bytes = sz, size_mb = 0,
       extension = [], modified_date = day, is_file = True, is_dir = False \<rparr>"

definition entry_A :: file_info where
  "entry_A = entry ''A'' 10 ''2024-01-01T09:00:00''"

definition entry_B :: file_info where
  "entry_B = entry ''B'' 10 ''2024-01-05T09:00:00''"

definition entry_C :: file_info where
  "entry_C = entry ''C'' 5 ''2024-01-01T09:00:00''"

subsection \<open>Values decoded from JSON, and Python's exceptions\<close>

text \<open>
  What \<^verbatim>\<open>json.loads\<close> returns: \<^verbatim>\<open>None\<close>, a bool, an int, a float (kept as the rational
  it denotes; infinities and NaN are not represented), a str, a list or a dict. A dict is an association list read with \<open>map_of\<close>;
  its keys are taken to be pairwise different, as the keys of a dict are.
\<close>

datatype json =
    JNull
  | JBool bool
  | JInt int
  | JFloat rat
  | JStr string
  | JArr "json list"
  | JObj "(string \<times> json) list"

text \<open>
  The exceptions the program can meet. \<open>JSONDecodeError\<close> carries the text that did not
  parse, \<open>APIError\<close> the message of a failed call to the model service, \<open>KeyError\<close> the
  missing key.
\<close>

datatype pyerr =
    FileNotFoundError
  | NotADirectoryError
  | IsADirectoryError
  | JSONDecodeError string
  | APIError string
  | AttributeError
  | TypeError
  | KeyError string
  | ValueError
  | OverflowError

text \<open>\<^verbatim>\<open>d.get(k, default)\<close>: only a dict has \<^verbatim>\<open>get\<close>.\<close>

fun py_get :: "json \<Rightarrow> string \<Rightarrow> json \<Rightarrow> pyerr + json" where
  "py_get (JObj kvs) k dflt = Inr (case map_of kvs k of Some v \<Rightarrow> v | None \<Rightarrow> dflt)"
| "py_get _ k dflt = Inl AttributeError"

text \<open>\<^verbatim>\<open>d[k]\<close> for a string key \<open>k\<close>: a missing key of a dict raises \<^verbatim>\<open>KeyError\<close>, and any
  other value refuses a string subscript with \<^verbatim>\<open>TypeError\<close>.\<close>

fun py_item :: "json \<Rightarrow> string \<Rightarrow> pyerr + json" where
  "py_item (JObj kvs) k = (case map_of kvs k of Some v \<Rightarrow> Inr v | None \<Rightarrow> Inl (KeyError k))"
| "py_item _ k = Inl TypeError"

text \<open>Truth value of a decoded value, as \<^verbatim>\<open>if x:\<close> and \<^verbatim>\<open>not x\<close> read it.\<close>

fun truthy :: "json \<Rightarrow> bool" where
  "truthy JNull = False"
| "truthy (JBool b) = b"
| "truthy (JInt n) = (n \<noteq> 0)"
| "truthy (JFloat r) = (r \<noteq> 0)"
| "truthy (JStr s) = (s \<noteq> [])"
| "truthy (JArr xs) = (xs \<noteq> [])"
| "truthy (JObj kvs) = (kvs \<noteq> [])"

text \<open>
  \<^verbatim>\<open>for item in x\<close>: a list yields its elements, a str its characters, a dict its keys;
  nothing else is iterable.
\<close>

fun py_iter :: "json \<Rightarrow> pyerr + json list" where
  "py_iter (JArr xs) = Inr xs"
| "py_iter (JStr s) = Inr (map (\<lambda>c. JStr [c]) s)"
| "py_iter (JObj kvs) = Inr (map JStr (remdups (map fst kvs)))"
| "py_iter _ = Inl TypeError"

text \<open>
  \<^verbatim>\<open>s.lower()\<close>, for the letters A to Z (no other character lowers to a letter of
  "high", "medium" or "low"); only a str has \<^verbatim>\<open>lower\<close>.
\<close>

definition lower_char :: "char \<Rightarrow> char" where
  "lower_char c =
     (case map_of (zip ''ABCDEFGHIJKLMNOPQRSTUVWXYZ'' ''abcdefghijklmnopqrstuvwxyz'') c of
        Some l \<Rightarrow> l
      | None \<Rightarrow> c)"

fun py_lower :: "json \<Rightarrow> pyerr + string" where
  "py_lower (JStr s) = Inr (map lower_char s)"
| "py_lower _ = Inl AttributeError"

text \<open>
  The format specification \<^verbatim>\<open>:.2f\<close> applied to a decoded value: an int, a float or a
  bool is formatted (an int too large for a float raises \<^verbatim>\<open>OverflowError\<close>), a str
  raises \<^verbatim>\<open>ValueError\<close>, anything else \<^verbatim>\<open>TypeError\<close>. The formatted text is not modelled: the
  value itself stands for it.
\<close>

fun format_2f :: "json \<Rightarrow> pyerr + json" where
  "format_2f (JInt n) =
     (if \<bar>n\<bar> < 2 ^ 1024 - 2 ^ 970 then Inr (JInt n) else Inl OverflowError)"
| "format_2f (JFloat r) = Inr (JFloat r)"
| "format_2f (JBool b) = Inr (JBool b)"
| "format_2f (JStr s) = Inl ValueError"
| "format_2f _ = Inl TypeError"

subsection \<open>Paths and the file system\<close>

text \<open>
  A path is the list of its components below the root, as \<^verbatim>\<open>pathlib\<close> holds it: the
  component \<^verbatim>\<open>..\<close> is kept as it is written and only the operating system resolves it.
  \<open>parse_parts\<close> splits a string at the slashes and drops the empty and the \<^verbatim>\<open>.\<close>
  components; \<open>path_join d s\<close> is \<^verbatim>\<open>d / s\<close>, which is \<open>s\<close> alone when \<open>s\<close> is absolute.
\<close>

type_synonym path = "string list"

fun split_slash :: "string \<Rightarrow> string list" where
  "split_slash [] = [[]]"
| "split_slash (c # cs) =
     (if c = CHR ''/'' then [] # split_slash cs
      else (case split_slash cs of [] \<Rightarrow> [[c]] | w # ws \<Rightarrow> (c # w) # ws))"

definition parse_parts :: "string \<Rightarrow> path" where
  "parse_parts s = [c \<leftarrow> split_slash s. c \<noteq> [] \<and> c \<noteq> ''.'']"

definition path_join :: "path \<Rightarrow> string \<Rightarrow> path" where
  "path_join d s = (if s \<noteq> [] \<and> hd s = CHR ''/'' then parse_parts s else d @ parse_parts s)"

text \<open>
  The file system is the directory collaborator: a table from resolved paths (no \<^verbatim>\<open>..\<close>)
  to what is stored there, regular files and directories, without symbolic links and with
  every permission granted. The order of the table is the order in which a directory lists
  its entries. The root always exists; its size and time are never read.
\<close>

datatype node_kind = Regular | Directory

record inode =
  st_size :: nat
  st_mtime :: string
  kind :: node_kind

type_synonym filesystem = "(path \<times> inode) list"

definition root_inode :: inode where
  "root_inode = \<lparr> st_size = 0, st_mtime = [], kind = Directory \<rparr>"

definition inode_at :: "filesystem \<Rightarrow> path \<Rightarrow> inode option" where
  "inode_at fs p = (if p = [] then Some root_inode else map_of fs p)"

text \<open>
  Path resolution, one component at a time from the resolved prefix \<open>cur\<close>: every prefix
  must be an existing directory, \<^verbatim>\<open>..\<close> moves to the parent (the root is its own parent).
  \<open>None\<close> is the failure of the lookup (\<^verbatim>\<open>ENOENT\<close>, \<^verbatim>\<open>ENOTDIR\<close>).
\<close>

fun walk :: "filesystem \<Rightarrow> path \<Rightarrow> string list \<Rightarrow> path option" where
  "walk fs cur [] = Some cur"
| "walk fs cur (c # cs) =
     (case inode_at fs cur of
        None \<Rightarrow> None
      | Some n \<Rightarrow>
          if kind n = Directory
          then walk fs (if c = ''..'' then butlast cur else cur @ [c]) cs
          else None)"

definition resolve :: "filesystem \<Rightarrow> path \<Rightarrow> path option" where
  "resolve fs p = (case walk fs [] p of
                     None \<Rightarrow> None
                   | Some q \<Rightarrow> (case inode_at fs q of None \<Rightarrow> None | Some n \<Rightarrow> Some q))"

text \<open>\<^verbatim>\<open>p.stat()\<close>; \<^verbatim>\<open>p.exists()\<close> is \<open>os_stat fs p \<noteq> None\<close>.\<close>

definition os_stat :: "filesystem \<Rightarrow> path \<Rightarrow> inode option" where
  "os_stat fs p = (case resolve fs p of None \<Rightarrow> None | Some q \<Rightarrow> inode_at fs q)"

text \<open>\<^verbatim>\<open>p.unlink()\<close>: removes a regular file and refuses a directory (with \<^verbatim>\<open>EISDIR\<close> or
  \<^verbatim>\<open>EPERM\<close>, depending on the system; the model names the exception \<open>IsADirectoryError\<close>).\<close>

definition os_unlink :: "filesystem \<Rightarrow> path \<Rightarrow> pyerr + filesystem" where
  "os_unlink fs p =
     (case resolve fs p of
        None \<Rightarrow> Inl FileNotFoundError
      | Some q \<Rightarrow>
          (case inode_at fs q of
             None \<Rightarrow> Inl FileNotFoundError
           | Some n \<Rightarrow>
               if kind n = Directory then Inl IsADirectoryError
               else Inr [e \<leftarrow> fs. fst e \<noteq> q]))"

text \<open>A resolved path lies inside the directory \<open>d\<close> when \<open>d\<close> is a prefix of it.\<close>

definition inside :: "path \<Rightarrow> path \<Rightarrow> bool" where
  "inside d q = prefix d q"

subsection \<open>The deletion executor\<close>

text \<open>
  \<^verbatim>\<open>delete_selected_files\<close>. The source appends to \<^verbatim>\<open>failed\<close> the text
  \<^verbatim>\<open>"{filename} (not found)"\<close> or \<^verbatim>\<open>"{filename} (error: {e})"\<close>; the model keeps the
  filename and the reason apart. \<open>delete_each\<close> is the loop, with the three accumulators
  of the source; a selected value that is not a str makes \<^verbatim>\<open>downloads_path / filename\<close>
  raise \<^verbatim>\<open>TypeError\<close> outside the \<^verbatim>\<open>try\<close>, which ends the loop with what was deleted so far.
  The freed total is the sum of \<^verbatim>\<open>st_size / (1024 * 1024)\<close>, computed here on rationals (the
  floats of the source hold these quotients and their sum exactly below 2^53 bytes).
\<close>

datatype failure_reason = NotFound | Error pyerr

record deletion_result =
  deleted :: "string list"
  failed :: "(string \<times> failure_reason) list"
  total_freed_mb :: rat
  count_deleted :: nat

type_synonym deletion_acc = "string list \<times> (string \<times> failure_reason) list \<times> rat"

fun delete_each ::
  "path \<Rightarrow> json list \<Rightarrow> deletion_acc \<Rightarrow> filesystem \<Rightarrow> (pyerr + deletion_acc) \<times> filesystem" where
  "delete_each d [] acc fs = (Inr acc, fs)"
| "delete_each d (v # rest) (dl, fl, freed) fs =
     (case v of
        JStr filename \<Rightarrow>
          (case os_stat fs (path_join d filename) of
             None \<Rightarrow> delete_each d rest (dl, fl @ [(filename, NotFound)], freed) fs
           | Some st \<Rightarrow>
               (case os_unlink fs (path_join d filename) of
                  Inl e \<Rightarrow> delete_each d rest (dl, fl @ [(filename, Error e)], freed) fs
                | Inr fs' \<Rightarrow>
                    delete_each d rest
                      (dl @ [filename], fl, freed + of_nat (st_size st) / (1024 * 1024)) fs'))
      | _ \<Rightarrow> (Inl TypeError, fs))"

definition delete_selected_files ::
  "json list \<Rightarrow> path \<Rightarrow> filesystem \<Rightarrow> (pyerr + deletion_result) \<times> filesystem" where
  "delete_selected_files selected_filenames downloads_path fs =
     (case delete_each downloads_path selected_filenames ([], [], 0) fs of
        (Inl e, fs') \<Rightarrow> (Inl e, fs')
      | (Inr (dl, fl, freed), fs') \<Rightarrow>
          (Inr \<lparr> deleted = dl, failed = fl, total_freed_mb = freed, count_deleted = length dl \<rparr>, fs'))"

subsection \<open>The presentation of the suggestions\<close>

text \<open>
  Sequencing of computations that can raise: the first exception ends the computation.
\<close>

definition and_then :: "pyerr + 'a \<Rightarrow> ('a \<Rightarrow> pyerr + 'b) \<Rightarrow> pyerr + 'b" where
  "and_then r f = (case r of Inl e \<Rightarrow> Inl e | Inr x \<Rightarrow> f x)"

fun for_each :: "('a \<Rightarrow> pyerr + 'b) \<Rightarrow> 'a list \<Rightarrow> pyerr + 'b list" where
  "for_each f [] = Inr []"
| "for_each f (x # xs) =
     (case f x of
        Inl e \<Rightarrow> Inl e
      | Inr y \<Rightarrow> (case for_each f xs of Inl e \<Rightarrow> Inl e | Inr ys \<Rightarrow> Inr (y # ys)))"

text \<open>\<^verbatim>\<open>len(x)\<close>\<close>

fun py_len :: "json \<Rightarrow> pyerr + nat" where
  "py_len (JArr xs) = Inr (length xs)"
| "py_len (JStr s) = Inr (length s)"
| "py_len (JObj kvs) = Inr (length (remdups (map fst kvs)))"
| "py_len _ = Inl TypeError"

text \<open>\<^verbatim>\<open>s.get("confidence", "").lower()\<close>\<close>

definition confidence_of :: "json \<Rightarrow> pyerr + string" where
  "confidence_of s = and_then (py_get s ''confidence'' (JStr [])) py_lower"

text \<open>\<^verbatim>\<open>[s for s in suggestion_list if s.get("confidence", "").lower() == level]\<close>\<close>

definition with_confidence :: "string \<Rightarrow> json list \<Rightarrow> pyerr + json list" where
  "with_confidence level items =
     and_then (for_each (\<lambda>s. and_then (confidence_of s) (\<lambda>c. Inr (s, c = level))) items)
       (\<lambda>marked. Inr (map fst (filter snd marked)))"

text \<open>
  The lines \<^verbatim>\<open>display_suggestions\<close> prints, one constructor per \<^verbatim>\<open>print\<close> that shows data
  (rules and blank lines are left out). A line holds the values it shows, not their text.
\<close>

datatype confidence_level = High | Medium | Low

datatype display_line =
    SummaryScanned json
  | SummarySuggested json
  | SummarySpace json
  | NothingSuggested
  | SuggestedCount nat
  | GroupHeader confidence_level
  | ItemName json
  | ItemReason json
  | ItemSize json
  | ItemAge json
  | ReviewCarefully

text \<open>The four prints for one item of a group (the age only when the key is there).\<close>

definition display_item :: "json \<Rightarrow> pyerr + display_line list" where
  "display_item item =
     and_then (py_item item ''filename'') (\<lambda>fname.
     and_then (py_get item ''reason'' (JStr ''N/A'')) (\<lambda>reason.
     and_then (and_then (py_get item ''size_mb'' (JInt 0)) format_2f) (\<lambda>sz.
     and_then (py_get item ''age_days'' JNull) (\<lambda>age.
       Inr ([ItemName fname, ItemReason reason, ItemSize sz] @
            (case item of
               JObj kvs \<Rightarrow> (if ''age_days'' \<in> fst ` set kvs then [ItemAge age] else [])
             | _ \<Rightarrow> []))))))"

definition display_group :: "confidence_level \<Rightarrow> json list \<Rightarrow> pyerr + display_line list" where
  "display_group level items =
     (if items = [] then Inr []
      else and_then (for_each display_item items) (\<lambda>ls. Inr (GroupHeader level # concat ls)))"

definition display_suggestions :: "json \<Rightarrow> pyerr + display_line list" where
  "display_suggestions suggestions =
     and_then (py_get suggestions ''summary'' (JObj [])) (\<lambda>summary.
     and_then (py_get summary ''total_files_scanned'' (JInt 0)) (\<lambda>scanned.
     and_then (py_get summary ''files_suggested_for_deletion'' (JInt 0)) (\<lambda>suggested.
     and_then (and_then (py_get summary ''total_space_to_free_mb'' (JInt 0)) format_2f) (\<lambda>space.
     and_then (py_get suggestions ''suggestions'' (JArr [])) (\<lambda>suggestion_list.
       if \<not> truthy suggestion_list
       then Inr [SummaryScanned scanned, SummarySuggested suggested, SummarySpace space,
                 NothingSuggested]
       else
         and_then (py_len suggestion_list) (\<lambda>n.
         and_then (py_iter suggestion_list) (\<lambda>items.
         and_then (with_confidence ''high'' items) (\<lambda>high_conf.
         and_then (with_confidence ''medium'' items) (\<lambda>medium_conf.
         and_then (with_confidence ''low'' items) (\<lambda>low_conf.
         and_then (display_group High high_conf) (\<lambda>hs.
         and_then (display_group Medium medium_conf) (\<lambda>ms.
         and_then (display_group Low low_conf) (\<lambda>ls.
           Inr ([SummaryScanned scanned, SummarySuggested suggested, SummarySpace space,
                 SuggestedCount n] @ hs @ ms @ ls @ [ReviewCarefully]))))))))))))))"

subsection \<open>The checkbox choices\<close>

text \<open>
  \<^verbatim>\<open>interactive_file_selection\<close> and \<^verbatim>\<open>mark_files_as_keep\<close> build their choices with the
  same lines of code (214 to 234 and 252 to 272). The marker is the emoji looked up from
  the lowered confidence, with the white circle as the default of the lookup. The label is
  kept as its parts: marker, filename, size and the reason cut to 60 characters.
\<close>

datatype marker = RedCircle | YellowCircle | GreenCircle | WhiteCircle

definition confidence_emoji :: "string \<Rightarrow> marker" where
  "confidence_emoji c =
     (case map_of [(''high'', RedCircle), (''medium'', YellowCircle), (''low'', GreenCircle)] c of
        Some m \<Rightarrow> m
      | None \<Rightarrow> WhiteCircle)"

text \<open>
  \<^verbatim>\<open>if len(reason) > 60: reason = reason[:57] + "..."\<close>: a str is cut; a longer list or
  dict cannot be sliced and joined to a str; a value without a length raises at once.
\<close>

fun shorten_reason :: "json \<Rightarrow> pyerr + json" where
  "shorten_reason (JStr s) = Inr (JStr (if length s > 60 then take 57 s @ ''...'' else s))"
| "shorten_reason (JArr xs) = (if length xs > 60 then Inl TypeError else Inr (JArr xs))"
| "shorten_reason (JObj kvs) =
     (if length (remdups (map fst kvs)) > 60 then Inl TypeError else Inr (JObj kvs))"
| "shorten_reason _ = Inl TypeError"

record label =
  label_marker :: marker
  label_filename :: json
  label_size_mb :: json
  label_reason :: json

record choice =
  choice_title :: label
  choice_value :: json

definition make_choice :: "json \<Rightarrow> pyerr + choice" where
  "make_choice item =
     and_then (confidence_of item) (\<lambda>c.
     and_then (and_then (py_get item ''reason'' (JStr ''N/A'')) shorten_reason) (\<lambda>reason.
     and_then (py_item item ''filename'') (\<lambda>fname.
     and_then (and_then (py_get item ''size_mb'' (JInt 0)) format_2f) (\<lambda>sz.
       Inr \<lparr> choice_title = \<lparr> label_marker = confidence_emoji c, label_filename = fname,
                               label_size_mb = sz, label_reason = reason \<rparr>,
             choice_value = fname \<rparr>))))"

text \<open>The choices built by the loop over the list of suggestions.\<close>

definition checkbox_choices :: "json \<Rightarrow> pyerr + choice list" where
  "checkbox_choices suggestion_list = and_then (py_iter suggestion_list) (for_each make_choice)"

subsection \<open>The world of a session\<close>

text \<open>
  The request sent to the model service: the rendering of the file list, the total size
  (the sum of the rounded sizes, taken exactly) and the number of files; the policy prompt
  is a constant of the source.
\<close>

record request =
  file_list_text :: "prompt_line list"
  total_size_mb :: rat
  file_count :: nat

text \<open>
  What the service call and \<^verbatim>\<open>json.loads\<close> make of it: the call fails with a message, or
  the content is a text that is not JSON, or it decodes to a value.
\<close>

datatype reply = ServiceFailure string | NotJSON string | Decoded json

text \<open>
  The kept-files database \<^verbatim>\<open>kept_files.json\<close>: absent, unreadable as JSON, or holding a
  document. It lies beside the program, outside the tree the session touches.
\<close>

datatype dbfile = Absent | Corrupt | Doc json

text \<open>
  The trace of a session: what is printed, asked, called and written, in order. Console
  decoration (rules, progress messages) is left out.
\<close>

datatype event =
    Warned string
  | OracleAsked request
  | RawResponsePrinted string
  | ServiceErrorPrinted string
  | Displayed "display_line list"
  | ArtifactWritten path
  | DeleteAsked "choice list"
  | ConfirmAsked nat
  | ExecutorInvoked "json list"
  | DeletionReported deletion_result
  | DeletionCancelled
  | NothingSelected
  | KeepAsked "choice list"
  | DbWritten json
  | KeepReported nat

record world =
  home_dir :: path
  disk :: filesystem
  kept_files_db :: dbfile
  db_writable :: bool
  clock :: nat
  isoformat :: "nat \<Rightarrow> string"
  trace :: "event list"

text \<open>
  The inputs of one session from outside the program: the reply of the model service, the
  number of bytes \<^verbatim>\<open>json.dump\<close> writes for the suggestions, and the operator's answers to
  the three prompts. An answer is what \<^verbatim>\<open>ask()\<close> returns, which is \<^verbatim>\<open>None\<close> for a cancelled
  prompt; the confirmation is asked with the default "no", so an empty answer returns
  \<open>False\<close>. A checkbox answer is any list of values: the library returns the values of the
  ticked choices, and the model does not restrict the answer further.
\<close>

record session_input =
  oracle_reply :: reply
  dump_size :: nat
  delete_answer :: "json list option"
  confirm_answer :: "bool option"
  keep_answer :: "json list option"

type_synonym 'a action = "world \<Rightarrow> (pyerr + 'a) \<times> world"

definition seq :: "'a action \<Rightarrow> ('a \<Rightarrow> 'b action) \<Rightarrow> 'b action" where
  "seq act f w = (case act w of (Inl e, w') \<Rightarrow> (Inl e, w') | (Inr x, w') \<Rightarrow> f x w')"

definition lift :: "pyerr + 'a \<Rightarrow> 'a action" where
  "lift r w = (r, w)"

definition emit :: "event \<Rightarrow> unit action" where
  "emit e w = (Inr (), w\<lparr> trace := trace w @ [e] \<rparr>)"

text \<open>\<^verbatim>\<open>datetime.now().isoformat()\<close>: reads the clock, which then moves on.\<close>

definition datetime_now :: "string action" where
  "datetime_now w = (Inr (isoformat w (clock w)), w\<lparr> clock := clock w + 1 \<rparr>)"

subsection \<open>The kept-files database\<close>

text \<open>
  A value can be a member of a set only if it is hashable; lists and dicts are not.
  Membership compares with \<^verbatim>\<open>==\<close>, under which \<^verbatim>\<open>1\<close>, \<^verbatim>\<open>1.0\<close> and \<^verbatim>\<open>True\<close> are equal.
\<close>

fun hashable :: "json \<Rightarrow> bool" where
  "hashable (JArr xs) = False"
| "hashable (JObj kvs) = False"
| "hashable _ = True"

fun number_of :: "json \<Rightarrow> rat option" where
  "number_of (JBool b) = Some (if b then 1 else 0)"
| "number_of (JInt n) = Some (of_int n)"
| "number_of (JFloat r) = Some r"
| "number_of _ = None"

definition py_eq :: "json \<Rightarrow> json \<Rightarrow> bool" where
  "py_eq a b =
     (case (number_of a, number_of b) of
        (Some x, Some y) \<Rightarrow> x = y
      | (None, None) \<Rightarrow> a = b
      | _ \<Rightarrow> False)"

text \<open>\<^verbatim>\<open>{item["filename"] for item in data.get("kept_files", [])}\<close>, as the list of its
  members in the order of the document.\<close>

definition filename_of_entry :: "json \<Rightarrow> pyerr + json" where
  "filename_of_entry item =
     and_then (py_item item ''filename'') (\<lambda>v. if hashable v then Inr v else Inl TypeError)"

definition db_filenames :: "json \<Rightarrow> pyerr + json list" where
  "db_filenames data =
     and_then (py_get data ''kept_files'' (JArr [])) (\<lambda>kept.
     and_then (py_iter kept) (for_each filename_of_entry))"

text \<open>
  \<^verbatim>\<open>load_kept_files\<close>: the \<^verbatim>\<open>except\<close> clause catches \<^verbatim>\<open>JSONDecodeError\<close>, \<^verbatim>\<open>KeyError\<close> and
  \<^verbatim>\<open>IOError\<close>, warns and returns the empty set; any other exception leaves the function.
\<close>

definition load_kept_files :: "json list action" where
  "load_kept_files w =
     (case kept_files_db w of
        Absent \<Rightarrow> (Inr [], w)
      | Corrupt \<Rightarrow> seq (emit (Warned ''Could not load kept files database'')) (\<lambda>_. lift (Inr [])) w
      | Doc data \<Rightarrow>
          (case db_filenames data of
             Inl (KeyError k) \<Rightarrow>
               seq (emit (Warned ''Could not load kept files database'')) (\<lambda>_. lift (Inr [])) w
           | Inl e \<Rightarrow> (Inl e, w)
           | Inr names \<Rightarrow> (Inr names, w)))"

text \<open>The document \<^verbatim>\<open>save_kept_file\<close> starts from when the file is absent or unreadable.\<close>

definition fresh_db :: json where
  "fresh_db = JObj [(''kept_files'', JArr []), (''metadata'', JObj [])]"

text \<open>\<^verbatim>\<open>data["kept_files"].append(kept_entry)\<close>\<close>

definition append_kept :: "json \<Rightarrow> json \<Rightarrow> pyerr + json" where
  "append_kept data kept_entry =
     and_then (py_item data ''kept_files'') (\<lambda>kept.
       case (data, kept) of
         (JObj kvs, JArr items) \<Rightarrow>
           Inr (JObj (AList.update ''kept_files'' (JArr (items @ [kept_entry])) kvs))
       | _ \<Rightarrow> Inl AttributeError)"

text \<open>\<^verbatim>\<open>data["metadata"]["last_updated"] = stamp\<close>\<close>

definition set_last_updated :: "json \<Rightarrow> string \<Rightarrow> pyerr + json" where
  "set_last_updated data stamp =
     and_then (py_item data ''metadata'') (\<lambda>meta.
       case (data, meta) of
         (JObj kvs, JObj ms) \<Rightarrow>
           Inr (JObj (AList.update ''metadata''
                        (JObj (AList.update ''last_updated'' (JStr stamp) ms)) kvs))
       | _ \<Rightarrow> Inl TypeError)"

text \<open>
  Writing the database back: a failure to open or write the file (\<^verbatim>\<open>IOError\<close>) is caught
  and reported as a warning, and the file is left as it was.
\<close>

definition write_db :: "json \<Rightarrow> unit action" where
  "write_db data w =
     (if db_writable w
      then emit (DbWritten data) (w\<lparr> kept_files_db := Doc data \<rparr>)
      else emit (Warned ''Could not save kept file entry'') w)"

definition save_kept_file :: "json \<Rightarrow> unit action" where
  "save_kept_file filename w =
     (let data = (case kept_files_db w of Doc j \<Rightarrow> j | _ \<Rightarrow> fresh_db) in
      seq (lift (db_filenames data)) (\<lambda>existing_filenames.
        if \<not> hashable filename then lift (Inl TypeError)
        else if list_ex (py_eq filename) existing_filenames then lift (Inr ())
        else
          seq datetime_now (\<lambda>marked.
          seq (lift (append_kept data
                 (JObj [(''filename'', filename), (''marked_date'', JStr marked),
                        (''reason'', JStr ''User explicitly marked as keep'')]))) (\<lambda>data1.
          seq datetime_now (\<lambda>updated.
          seq (lift (set_last_updated data1 updated)) write_db)))) w)"

text \<open>The kept filenames that are strings, and how often a document lists a filename.\<close>

definition kept_strings :: "json list \<Rightarrow> string set" where
  "kept_strings names = {s. JStr s \<in> set names}"




subsection \<open>Scanning the Downloads folder\<close>

text \<open>\<^verbatim>\<open>PurePath.suffix\<close>: the name from its last dot on, unless that dot is the first or
  the last character.\<close>

definition suffix_of :: "string \<Rightarrow> string" where
  "suffix_of nm =
     (let tail = takeWhile (\<lambda>c. c \<noteq> CHR ''.'') (rev nm) in
      if CHR ''.'' \<in> set nm \<and> tail \<noteq> [] \<and> length tail + 1 < length nm
      then CHR ''.'' # rev tail else [])"

text \<open>\<^verbatim>\<open>round(x, 2)\<close>: to the nearest hundredth, a tie to the even one.\<close>

definition round2 :: "rat \<Rightarrow> rat" where
  "round2 x =
     (let y = x * 100; f = \<lfloor>y\<rfloor>; r = y - of_int f in
      of_int (if r < 1 / 2 then f else if 1 / 2 < r then f + 1
              else if even f then f else f + 1) / 100)"

text \<open>\<^verbatim>\<open>str(p)\<close> for a path below the root.\<close>

definition path_str :: "path \<Rightarrow> string" where
  "path_str p = concat (map (\<lambda>c. CHR ''/'' # c) p)"

definition listdir :: "filesystem \<Rightarrow> path \<Rightarrow> string list" where
  "listdir fs q = map last [p \<leftarrow> remdups (map fst fs). p \<noteq> [] \<and> butlast p = q]"

definition file_info_of :: "path \<Rightarrow> string \<Rightarrow> inode \<Rightarrow> file_info" where
  "file_info_of d nm st =
     \<lparr> name = nm,
       path = path_str (d @ [nm]),
       size_bytes = st_size st,
       size_mb = round2 (of_nat (st_size st) / (1024 * 1024)),
       extension = map lower_char (suffix_of nm),
       modified_date = st_mtime st,
       is_file = (kind st = Regular),
       is_dir = (kind st = Directory) \<rparr>"

text \<open>The loop of \<^verbatim>\<open>scan_downloads_folder\<close>: an entry whose \<^verbatim>\<open>stat\<close> fails is skipped with a
  warning.\<close>

fun scan_items :: "path \<Rightarrow> string list \<Rightarrow> file_info list action" where
  "scan_items d [] w = (Inr [], w)"
| "scan_items d (nm # nms) w =
     (case os_stat (disk w) (d @ [nm]) of
        None \<Rightarrow> seq (emit (Warned (''Could not access '' @ nm))) (\<lambda>_. scan_items d nms) w
      | Some st \<Rightarrow>
          (case scan_items d nms w of
             (Inl e, w') \<Rightarrow> (Inl e, w')
           | (Inr infos, w') \<Rightarrow> (Inr (file_info_of d nm st # infos), w')))"

definition scan_downloads_folder :: "path \<Rightarrow> file_info list action" where
  "scan_downloads_folder downloads_path w =
     (case resolve (disk w) downloads_path of
        None \<Rightarrow> (Inl FileNotFoundError, w)
      | Some q \<Rightarrow>
          (case inode_at (disk w) q of
             None \<Rightarrow> (Inl FileNotFoundError, w)
           | Some n \<Rightarrow>
               if kind n = Directory then scan_items downloads_path (listdir (disk w) q) w
               else (Inl NotADirectoryError, w)))"

definition get_downloads_folder :: "path action" where
  "get_downloads_folder w =
     (let downloads = home_dir w @ [''Downloads''] in
      if os_stat (disk w) downloads = None then (Inl FileNotFoundError, w)
      else (Inr downloads, w))"

subsection \<open>The advisory client\<close>

text \<open>
  \<^verbatim>\<open>get_deletion_suggestions\<close>: one call of the service. A content that is not JSON is
  printed and the \<^verbatim>\<open>JSONDecodeError\<close> raised again; any other failure is printed and raised
  again; a decoded value is returned as it is.
\<close>

definition request_for :: "file_info list \<Rightarrow> request" where
  "request_for files =
     \<lparr> file_list_text = format_files_for_prompt files,
       total_size_mb = sum_list (map size_mb files),
       file_count = length files \<rparr>"

definition get_deletion_suggestions :: "file_info list \<Rightarrow> reply \<Rightarrow> json action" where
  "get_deletion_suggestions files client =
     seq (emit (OracleAsked (request_for files))) (\<lambda>_.
       case client of
         ServiceFailure m \<Rightarrow> seq (emit (ServiceErrorPrinted m)) (\<lambda>_. lift (Inl (APIError m)))
       | NotJSON raw \<Rightarrow> seq (emit (RawResponsePrinted raw)) (\<lambda>_. lift (Inl (JSONDecodeError raw)))
       | Decoded result \<Rightarrow> lift (Inr result))"

subsection \<open>The prompts\<close>

text \<open>\<^verbatim>\<open>return selected or []\<close>, where \<^verbatim>\<open>selected\<close> is \<^verbatim>\<open>None\<close> after a cancelled prompt.\<close>

definition selected_of :: "json list option \<Rightarrow> json list" where
  "selected_of answer = (case answer of None \<Rightarrow> [] | Some selected \<Rightarrow> selected)"

definition interactive_file_selection :: "json \<Rightarrow> json list option \<Rightarrow> json list action" where
  "interactive_file_selection suggestions answer =
     seq (lift (py_get suggestions ''suggestions'' (JArr []))) (\<lambda>suggestion_list.
       if \<not> truthy suggestion_list then lift (Inr [])
       else
         seq (lift (checkbox_choices suggestion_list)) (\<lambda>choices.
         seq (emit (DeleteAsked choices)) (\<lambda>_.
           lift (Inr (selected_of answer)))))"

definition mark_files_as_keep :: "json \<Rightarrow> json list option \<Rightarrow> json list action" where
  "mark_files_as_keep suggestions answer =
     seq (lift (py_get suggestions ''suggestions'' (JArr []))) (\<lambda>suggestion_list.
       if \<not> truthy suggestion_list then lift (Inr [])
       else
         seq (lift (checkbox_choices suggestion_list)) (\<lambda>choices.
         seq (emit (KeepAsked choices)) (\<lambda>_.
           lift (Inr (selected_of answer)))))"

subsection \<open>The session\<close>

text \<open>Writing a file: \<^verbatim>\<open>open(p, "w")\<close> creates or replaces a regular file and refuses a
  directory.\<close>

definition os_write :: "filesystem \<Rightarrow> path \<Rightarrow> inode \<Rightarrow> pyerr + filesystem" where
  "os_write fs p n =
     (case walk fs [] p of
        None \<Rightarrow> Inl FileNotFoundError
      | Some q \<Rightarrow>
          (case inode_at fs q of
             None \<Rightarrow> Inr (AList.update q n fs)
           | Some m \<Rightarrow>
               if kind m = Directory then Inl IsADirectoryError
               else Inr (AList.update q n fs)))"

text \<open>Lines 390 to 394: the suggestions are written to \<^verbatim>\<open>cleanup_suggestions.json\<close> in the
  scanned directory.\<close>

definition save_suggestions :: "path \<Rightarrow> nat \<Rightarrow> unit action" where
  "save_suggestions downloads_path n w =
     (let output_file = path_join downloads_path ''cleanup_suggestions.json'' in
      case os_write (disk w) output_file
             \<lparr> st_size = n, st_mtime = isoformat w (clock w), kind = Regular \<rparr> of
        Inl e \<Rightarrow> (Inl e, w)
      | Inr fs' \<Rightarrow> emit (ArtifactWritten output_file) (w\<lparr> disk := fs' \<rparr>))"

definition run_executor :: "json list \<Rightarrow> path \<Rightarrow> deletion_result action" where
  "run_executor selected_files downloads_path w =
     (case delete_selected_files selected_files downloads_path (disk w) of
        (r, fs') \<Rightarrow> (r, w\<lparr> disk := fs' \<rparr>))"

text \<open>Lines 402 to 425: the confirmation and the deletion.\<close>

definition deletion_step :: "json list \<Rightarrow> path \<Rightarrow> bool option \<Rightarrow> unit action" where
  "deletion_step selected_files downloads_path confirm =
     (if selected_files \<noteq> [] then
        seq (emit (ConfirmAsked (length selected_files))) (\<lambda>_.
          if confirm = Some True then
            seq (emit (ExecutorInvoked selected_files)) (\<lambda>_.
            seq (run_executor selected_files downloads_path) (\<lambda>result.
              emit (DeletionReported result)))
          else emit DeletionCancelled)
      else emit NothingSelected)"

text \<open>Lines 427 to 432: the keep prompt and the writes to the database.\<close>

fun save_all :: "json list \<Rightarrow> unit action" where
  "save_all [] w = (Inr (), w)"
| "save_all (filename # rest) w =
     (case save_kept_file filename w of
        (Inl e, w') \<Rightarrow> (Inl e, w')
      | (Inr u, w') \<Rightarrow> save_all rest w')"

definition keep_step :: "json \<Rightarrow> json list option \<Rightarrow> unit action" where
  "keep_step suggestions answer =
     seq (mark_files_as_keep suggestions answer) (\<lambda>keep_files.
       if keep_files \<noteq> [] then
         seq (save_all keep_files) (\<lambda>_. emit (KeepReported (length keep_files)))
       else lift (Inr ()))"

text \<open>Lines 396 to 432: the interactive part of the session.\<close>

definition selection_phase :: "json \<Rightarrow> path \<Rightarrow> session_input \<Rightarrow> unit action" where
  "selection_phase suggestions downloads_path inp =
     seq (lift (py_get suggestions ''suggestions'' (JArr []))) (\<lambda>suggestion_list.
       if truthy suggestion_list then
         seq (interactive_file_selection suggestions (delete_answer inp)) (\<lambda>selected_files.
         seq (deletion_step selected_files downloads_path (confirm_answer inp)) (\<lambda>_.
           keep_step suggestions (keep_answer inp)))
       else lift (Inr ()))"

definition run_cleanup_session :: "session_input \<Rightarrow> unit action" where
  "run_cleanup_session inp =
     seq get_downloads_folder (\<lambda>downloads_path.
     seq (scan_downloads_folder downloads_path) (\<lambda>files.
       if files = [] then lift (Inr ())
       else
         seq load_kept_files (\<lambda>kept_filenames.
         seq (get_deletion_suggestions
                (if kept_filenames \<noteq> []
                 then filter_kept_files files (kept_strings kept_filenames) else files)
                (oracle_reply inp)) (\<lambda>suggestions.
         seq (lift (display_suggestions suggestions)) (\<lambda>shown.
         seq (emit (Displayed shown)) (\<lambda>_.
         seq (save_suggestions downloads_path (dump_size inp)) (\<lambda>_.
           selection_phase suggestions downloads_path inp)))))))"

subsection \<open>Notions used to state the properties\<close>

text \<open>The size the file system reports for a path (0 when there is nothing), and the
  MiB freed by deleting the files named in \<open>dl\<close>, measured on the file system \<open>fs\<close>.\<close>

definition size_on :: "filesystem \<Rightarrow> path \<Rightarrow> nat" where
  "size_on fs p = (case os_stat fs p of None \<Rightarrow> 0 | Some st \<Rightarrow> st_size st)"

definition freed_mb :: "filesystem \<Rightarrow> path \<Rightarrow> string list \<Rightarrow> rat" where
  "freed_mb fs d dl = (\<Sum>n\<leftarrow>dl. of_nat (size_on fs (path_join d n)) / (1024 * 1024))"

text \<open>
  What a run of the executor's loop establishes, from the file system \<open>fs\<close> it starts on to
  the file system \<open>fs'\<close> it leaves, for the deleted names \<open>dl\<close> and the failures \<open>fl\<close> it adds.
\<close>

definition executor_post ::
  "path \<Rightarrow> string list \<Rightarrow> filesystem \<Rightarrow> string list \<Rightarrow> (string \<times> failure_reason) list \<Rightarrow>
   filesystem \<Rightarrow> bool" where
  "executor_post d names fs dl fl fs' =
     (mset dl + mset (map fst fl) = mset names
      \<and> (\<forall>x st. os_stat fs' x = Some st \<longrightarrow> os_stat fs x = Some st)
      \<and> (\<forall>x st. os_stat fs x = Some st \<longrightarrow> kind st = Directory \<longrightarrow> os_stat fs' x = Some st)
      \<and> (\<forall>n\<in>set dl. os_stat fs (path_join d n) \<noteq> None \<and> os_stat fs' (path_join d n) = None)
      \<and> (\<forall>(n, r)\<in>set fl.
            (r = NotFound \<and> os_stat fs' (path_join d n) = None) \<or>
            (\<exists>e. r = Error e \<and> os_stat fs' (path_join d n) \<noteq> None \<and>
                 os_unlink fs' (path_join d n) = Inl e))
      \<and> (\<forall>n\<in>set names. os_stat fs (path_join d n) = None \<longrightarrow> (n, NotFound) \<in> set fl))"

text \<open>
  A Downloads folder of the example runs: the directory \<^verbatim>\<open>/home/u/Downloads\<close> with the
  files \<^verbatim>\<open>a.dmg\<close> (2 MiB) and \<^verbatim>\<open>c.iso\<close> (1 MiB) and the directory \<^verbatim>\<open>sub\<close>; beside it, outside
  the folder, the file \<^verbatim>\<open>/home/u/x\<close> (1 MiB). There is no \<^verbatim>\<open>b.zip\<close>.
\<close>

definition dir_node :: inode where
  "dir_node = \<lparr> st_size = 96, st_mtime = ''2024-01-01T09:00:00'', kind = Directory \<rparr>"

definition file_node :: "nat \<Rightarrow> inode" where
  "file_node n = \<lparr> st_size = n, st_mtime = ''2024-01-01T09:00:00'', kind = Regular \<rparr>"

definition downloads0 :: path where
  "downloads0 = [''home'', ''u'', ''Downloads'']"

definition disk0 :: filesystem where
  "disk0 =
     [([''home''], dir_node),
      ([''home'', ''u''], dir_node),
      ([''home'', ''u'', ''Downloads''], dir_node),
      ([''home'', ''u'', ''x''], file_node 1048576),
      ([''home'', ''u'', ''Downloads'', ''a.dmg''], file_node 2097152),
      ([''home'', ''u'', ''Downloads'', ''c.iso''], file_node 1048576),
      ([''home'', ''u'', ''Downloads'', ''sub''], dir_node)]"

text \<open>Kinds of events: the two that show the executor at work, and the printed warnings.\<close>

definition is_deletion :: "event \<Rightarrow> bool" where
  "is_deletion e =
     (case e of ExecutorInvoked sel \<Rightarrow> True | DeletionReported res \<Rightarrow> True | _ \<Rightarrow> False)"

definition is_warning :: "event \<Rightarrow> bool" where
  "is_warning e = (case e of Warned m \<Rightarrow> True | _ \<Rightarrow> False)"

text \<open>The world \<open>w'\<close> differs from \<open>w\<close> by printed warnings only.\<close>

definition warned_only :: "world \<Rightarrow> world \<Rightarrow> bool" where
  "warned_only w w' = (\<exists>evs. w' = w\<lparr> trace := trace w @ evs \<rparr> \<and> list_all is_warning evs)"

text \<open>Nothing that was on the disk of \<open>w\<close> is missing in \<open>w'\<close>, and the events added to the
  trace show no run of the executor.\<close>

definition nothing_deleted :: "world \<Rightarrow> world \<Rightarrow> bool" where
  "nothing_deleted w w' =
     ((\<forall>p. inode_at (disk w) p \<noteq> None \<longrightarrow> inode_at (disk w') p \<noteq> None)
      \<and> (\<exists>evs. trace w' = trace w @ evs \<and> \<not> list_ex is_deletion evs))"

text \<open>Every run of an action relates the world before to the world after.\<close>

definition holds :: "(world \<Rightarrow> world \<Rightarrow> bool) \<Rightarrow> 'a action \<Rightarrow> bool" where
  "holds R act = (\<forall>w r w'. act w = (r, w') \<longrightarrow> R w w')"

text \<open>
  The worlds and inputs of the example sessions: the Downloads folder above, no
  kept-files database yet, and a batch of two suggestions, the second with a confidence
  that is none of high, medium and low.
\<close>

definition iso0 :: "nat \<Rightarrow> string" where
  "iso0 n = ''2024-06-01T10:00:0'' @ [''0123456789'' ! (n mod 10)]"

definition world0 :: world where
  "world0 =
     \<lparr> home_dir = [''home'', ''u''], disk = disk0, kept_files_db = Absent,
       db_writable = True, clock = 0, isoformat = iso0, trace = [] \<rparr>"

definition suggestion_a :: json where
  "suggestion_a =
     JObj [(''filename'', JStr ''a.dmg''), (''reason'', JStr ''Old installer''),
           (''confidence'', JStr ''high''), (''size_mb'', JFloat 2), (''age_days'', JInt 200)]"

definition suggestion_c :: json where
  "suggestion_c =
     JObj [(''filename'', JStr ''c.iso''), (''reason'', JStr ''Disk image''),
           (''confidence'', JStr ''unknown''), (''size_mb'', JFloat 1)]"

definition batch0 :: json where
  "batch0 =
     JObj [(''suggestions'', JArr [suggestion_a, suggestion_c]),
           (''summary'', JObj [(''total_files_scanned'', JInt 3),
                               (''files_suggested_for_deletion'', JInt 2),
                               (''total_space_to_free_mb'', JFloat 3)])]"

definition choices0 :: "choice list" where
  "choices0 =
     [\<lparr> choice_title = \<lparr> label_marker = RedCircle, label_filename = JStr ''a.dmg'',
                           label_size_mb = JFloat 2, label_reason = JStr ''Old installer'' \<rparr>,
         choice_value = JStr ''a.dmg'' \<rparr>,
      \<lparr> choice_title = \<lparr> label_marker = WhiteCircle, label_filename = JStr ''c.iso'',
                           label_size_mb = JFloat 1, label_reason = JStr ''Disk image'' \<rparr>,
         choice_value = JStr ''c.iso'' \<rparr>]"

text \<open>The operator ticks \<^verbatim>\<open>a.dmg\<close> for deletion, answers the confirmation with \<open>confirm\<close>, and
  ticks what \<open>keep\<close> lists in the keep prompt.\<close>

definition session0 :: "reply \<Rightarrow> bool option \<Rightarrow> json list \<Rightarrow> session_input" where
  "session0 answer confirm keep =
     \<lparr> oracle_reply = answer, dump_size = 512,
       delete_answer = Some [JStr ''a.dmg''], confirm_answer = confirm,
       keep_answer = Some keep \<rparr>"

section \<open>Properties\<close>

subsection \<open>The kept-files filter\<close>

text \<open>
  Claim C3. For every list of entry records and every set of suppressed names,
  \<open>filter_kept_files\<close> returns exactly the records whose name is not in the set (each as
  often as the input has it), keeps them in the order of the input, and filtering a second
  time with the same set changes nothing.
\<close>

theorem filter_kept_files_exact_ordered_idempotent:
  "set (filter_kept_files files kept) = {f \<in> set files. name f \<notin> kept}
   \<and> mset (filter_kept_files files kept) = filter_mset (\<lambda>f. name f \<notin> kept) (mset files)
   \<and> subseq (filter_kept_files files kept) files
   \<and> filter_kept_files (filter_kept_files files kept) kept = filter_kept_files files kept"
  by (simp add: filter_kept_files_def)

subsection \<open>The order of the rendering\<close>

lemma prompt_key_le: "prompt_key a \<le> prompt_key b \<longleftrightarrow> before_in_prompt a b"
  by (auto simp: prompt_key_def before_in_prompt_def less_eq_prod_def)

lemma sorted_files_sorted: "sorted_wrt before_in_prompt (sorted_files files)"
proof -
  have "sorted (map prompt_key (sorted_files files))"
    by (simp add: sorted_files_def)
  then show ?thesis
    by (simp add: sorted_map prompt_key_le)
qed

lemma sorted_files_stable:
  "[y \<leftarrow> sorted_files files. prompt_key y = k] = [f \<leftarrow> files. prompt_key f = k]"
  by (simp add: sorted_files_def sort_key_stable)

lemma prompt_order_example:
  "map line_name (format_files_for_prompt [entry_C, entry_B, entry_A]) = [''A'', ''B'', ''C'']"
  "map line_name (format_files_for_prompt [entry_B, entry_C, entry_A]) = [''A'', ''B'', ''C'']"
  by (simp_all add: format_files_for_prompt_def sorted_files_def prompt_key_def format_line_def
        entry_A_def entry_B_def entry_C_def entry_def less_eq_prod_def)

text \<open>
  Claim C5. The rendering sent to the advisory oracle lists the entries by descending size,
  and among entries of equal size by ascending modification time: the lines are the lines
  of a rearrangement of the input that is sorted in that order (entries with the same size
  and time stay in their input order). For the entries A (size 10, day 1), B (size 10,
  day 5) and C (size 5, day 1) the rendered order is A, B, C.
\<close>

theorem format_files_for_prompt_order:
  "(\<exists>ys. mset ys = mset files
        \<and> sorted_wrt before_in_prompt ys
        \<and> (\<forall>k. [y \<leftarrow> ys. prompt_key y = k] = [f \<leftarrow> files. prompt_key f = k])
        \<and> format_files_for_prompt files = map format_line ys)
   \<and> map line_name (format_files_for_prompt [entry_C, entry_B, entry_A]) = [''A'', ''B'', ''C'']
   \<and> map line_name (format_files_for_prompt [entry_B, entry_C, entry_A]) = [''A'', ''B'', ''C'']"
proof -
  have "mset (sorted_files files) = mset files"
    by (simp add: sorted_files_def)
  then have "\<exists>ys. mset ys = mset files
        \<and> sorted_wrt before_in_prompt ys
        \<and> (\<forall>k. [y \<leftarrow> ys. prompt_key y = k] = [f \<leftarrow> files. prompt_key f = k])
        \<and> format_files_for_prompt files = map format_line ys"
    using sorted_files_sorted sorted_files_stable format_files_for_prompt_def by blast
  then show ?thesis
    using prompt_order_example by simp
qed

subsection \<open>The file system under deletion\<close>

lemma map_of_drop_key:
  "map_of [e \<leftarrow> fs. fst e \<noteq> q] x = (if x = q then None else map_of fs x)"
  by (induction fs) auto

lemma inode_at_drop:
  assumes "q \<noteq> []"
  shows "inode_at [e \<leftarrow> fs. fst e \<noteq> q] x = (if x = q then None else inode_at fs x)"
  using assms by (simp add: inode_at_def map_of_drop_key)

text \<open>Removing a regular file changes the resolution of no path.\<close>

lemma walk_drop:
  assumes "inode_at fs q = Some n" and "kind n \<noteq> Directory"
  shows "walk [e \<leftarrow> fs. fst e \<noteq> q] cur cs = walk fs cur cs"
proof -
  have q: "q \<noteq> []" using assms by (auto simp: inode_at_def root_inode_def)
  show ?thesis
  proof (induction cs arbitrary: cur)
    case Nil
    show ?case by simp
  next
    case (Cons c cs)
    show ?case
    proof (cases "cur = q")
      case True
      then show ?thesis using assms q by (simp add: inode_at_drop)
    next
      case False
      then show ?thesis using q Cons by (simp add: inode_at_drop split: option.splits)
    qed
  qed
qed

lemma unlink_cases:
  assumes "os_unlink fs p = Inr fs'"
  obtains q n where "walk fs [] p = Some q" "inode_at fs q = Some n" "kind n \<noteq> Directory"
    "fs' = [e \<leftarrow> fs. fst e \<noteq> q]"
  using assms by (auto simp: os_unlink_def resolve_def split: option.splits if_splits)

lemma stat_after_unlink:
  assumes "os_unlink fs p = Inr fs'"
  shows "os_stat fs' x = (if walk fs [] x = walk fs [] p then None else os_stat fs x)"
proof -
  from assms obtain q n where q: "walk fs [] p = Some q" "inode_at fs q = Some n"
    "kind n \<noteq> Directory" "fs' = [e \<leftarrow> fs. fst e \<noteq> q]"
    by (rule unlink_cases)
  have ne: "q \<noteq> []" using q by (auto simp: inode_at_def root_inode_def)
  have w: "walk [e \<leftarrow> fs. fst e \<noteq> q] [] x = walk fs [] x" using q walk_drop by simp
  show ?thesis
  proof (cases "walk fs [] x")
    case None
    then show ?thesis using q by (simp add: os_stat_def resolve_def w)
  next
    case (Some r)
    then show ?thesis using q ne
      by (cases "r = q") (simp_all add: os_stat_def resolve_def w inode_at_drop split: option.splits)
  qed
qed

lemma unlink_error_is_directory:
  assumes "os_unlink fs p = Inl e" and "os_stat fs p = Some st"
  shows "e = IsADirectoryError \<and> kind st = Directory"
  using assms by (auto simp: os_unlink_def os_stat_def resolve_def split: option.splits if_splits)

lemma unlink_directory:
  assumes "os_stat fs p = Some st" and "kind st = Directory"
  shows "os_unlink fs p = Inl IsADirectoryError"
  using assms by (auto simp: os_unlink_def os_stat_def resolve_def split: option.splits if_splits)

lemma stays_none:
  assumes "\<And>x st. os_stat fs' x = Some st \<Longrightarrow> os_stat fs x = Some st" and "os_stat fs p = None"
  shows "os_stat fs' p = None"
  using assms by (cases "os_stat fs' p") auto

subsection \<open>The loop of the executor\<close>

lemma executor_postI:
  assumes "mset dl + mset (map fst fl) = mset names"
    and "\<And>x st. os_stat fs' x = Some st \<Longrightarrow> os_stat fs x = Some st"
    and "\<And>x st. os_stat fs x = Some st \<Longrightarrow> kind st = Directory \<Longrightarrow> os_stat fs' x = Some st"
    and "\<And>n. n \<in> set dl \<Longrightarrow>
           os_stat fs (path_join d n) \<noteq> None \<and> os_stat fs' (path_join d n) = None"
    and "\<And>n r. (n, r) \<in> set fl \<Longrightarrow>
            (r = NotFound \<and> os_stat fs' (path_join d n) = None) \<or>
            (\<exists>e. r = Error e \<and> os_stat fs' (path_join d n) \<noteq> None \<and>
                 os_unlink fs' (path_join d n) = Inl e)"
    and "\<And>n. n \<in> set names \<Longrightarrow> os_stat fs (path_join d n) = None \<Longrightarrow> (n, NotFound) \<in> set fl"
  shows "executor_post d names fs dl fl fs'"
  unfolding executor_post_def using assms by blast

lemma executor_postD:
  assumes "executor_post d names fs dl fl fs'"
  shows "mset dl + mset (map fst fl) = mset names"
    and "\<And>x st. os_stat fs' x = Some st \<Longrightarrow> os_stat fs x = Some st"
    and "\<And>x st. os_stat fs x = Some st \<Longrightarrow> kind st = Directory \<Longrightarrow> os_stat fs' x = Some st"
    and "\<And>n. n \<in> set dl \<Longrightarrow> os_stat fs (path_join d n) \<noteq> None"
    and "\<And>n. n \<in> set dl \<Longrightarrow> os_stat fs' (path_join d n) = None"
    and "\<And>n r. (n, r) \<in> set fl \<Longrightarrow>
            (r = NotFound \<and> os_stat fs' (path_join d n) = None) \<or>
            (\<exists>e. r = Error e \<and> os_stat fs' (path_join d n) \<noteq> None \<and>
                 os_unlink fs' (path_join d n) = Inl e)"
    and "\<And>n. n \<in> set names \<Longrightarrow> os_stat fs (path_join d n) = None \<Longrightarrow> (n, NotFound) \<in> set fl"
  using assms unfolding executor_post_def by blast+
text \<open>
  The loop never raises on a list of strings; it extends the accumulators by the names it
  deleted and the failures it met, and adds the sizes of the deleted files, as the file
  system it started on reports them.
\<close>

lemma delete_each_spec:
  "\<exists>dl' fl' fs'.
     delete_each d (map JStr names) (dl, fl, freed) fs
       = (Inr (dl @ dl', fl @ fl', freed + freed_mb fs d dl'), fs')
     \<and> executor_post d names fs dl' fl' fs'"
proof (induction names arbitrary: dl fl freed fs)
  case Nil
  show ?case by (simp add: executor_post_def freed_mb_def)
next
  case (Cons n ns)
  let ?p = "path_join d n"
  show ?case
  proof (cases "os_stat fs ?p")
    case None
    from Cons.IH [of dl "fl @ [(n, NotFound)]" freed fs]
    obtain dl' fl' fs' where
      run: "delete_each d (map JStr ns) (dl, fl @ [(n, NotFound)], freed) fs
              = (Inr (dl @ dl', (fl @ [(n, NotFound)]) @ fl', freed + freed_mb fs d dl'), fs')"
      and post: "executor_post d ns fs dl' fl' fs'"
      by blast
    note P = executor_postD [OF post]
    have gone: "os_stat fs' ?p = None"
      using P(2) None by (rule stays_none)
    have "executor_post d (n # ns) fs dl' ((n, NotFound) # fl') fs'"
    proof (rule executor_postI)
      show "mset dl' + mset (map fst ((n, NotFound) # fl')) = mset (n # ns)"
        using P(1) by simp
      show "\<And>x st. os_stat fs' x = Some st \<Longrightarrow> os_stat fs x = Some st" by (rule P(2))
      show "\<And>x st. os_stat fs x = Some st \<Longrightarrow> kind st = Directory \<Longrightarrow> os_stat fs' x = Some st"
        by (rule P(3))
      show "\<And>m. m \<in> set dl' \<Longrightarrow>
              os_stat fs (path_join d m) \<noteq> None \<and> os_stat fs' (path_join d m) = None"
        using P(4) P(5) by simp
      show "\<And>m r. (m, r) \<in> set ((n, NotFound) # fl') \<Longrightarrow>
            (r = NotFound \<and> os_stat fs' (path_join d m) = None) \<or>
            (\<exists>e. r = Error e \<and> os_stat fs' (path_join d m) \<noteq> None \<and>
                 os_unlink fs' (path_join d m) = Inl e)"
        using P(6) gone by auto
      show "\<And>m. m \<in> set (n # ns) \<Longrightarrow> os_stat fs (path_join d m) = None \<Longrightarrow>
              (m, NotFound) \<in> set ((n, NotFound) # fl')"
        using P(7) by auto
    qed
    moreover have "delete_each d (map JStr (n # ns)) (dl, fl, freed) fs
              = (Inr (dl @ dl', fl @ ((n, NotFound) # fl'), freed + freed_mb fs d dl'), fs')"
      using run None by simp
    ultimately show ?thesis by blast
  next
    case (Some st)
    show ?thesis
    proof (cases "os_unlink fs ?p")
      case (Inl e)
      then have dir: "e = IsADirectoryError" "kind st = Directory"
        using Some unlink_error_is_directory by blast+
      from Cons.IH [of dl "fl @ [(n, Error e)]" freed fs]
      obtain dl' fl' fs' where
        run: "delete_each d (map JStr ns) (dl, fl @ [(n, Error e)], freed) fs
                = (Inr (dl @ dl', (fl @ [(n, Error e)]) @ fl', freed + freed_mb fs d dl'), fs')"
        and post: "executor_post d ns fs dl' fl' fs'"
        by blast
      note P = executor_postD [OF post]
      have still: "os_stat fs' ?p = Some st"
        using P(3) Some dir by simp
      then have unl: "os_unlink fs' ?p = Inl e"
        using dir unlink_directory by simp
      have "executor_post d (n # ns) fs dl' ((n, Error e) # fl') fs'"
      proof (rule executor_postI)
        show "mset dl' + mset (map fst ((n, Error e) # fl')) = mset (n # ns)"
          using P(1) by simp
        show "\<And>x st. os_stat fs' x = Some st \<Longrightarrow> os_stat fs x = Some st" by (rule P(2))
        show "\<And>x st. os_stat fs x = Some st \<Longrightarrow> kind st = Directory \<Longrightarrow> os_stat fs' x = Some st"
          by (rule P(3))
        show "\<And>m. m \<in> set dl' \<Longrightarrow>
                os_stat fs (path_join d m) \<noteq> None \<and> os_stat fs' (path_join d m) = None"
          using P(4) P(5) by simp
        show "\<And>m r. (m, r) \<in> set ((n, Error e) # fl') \<Longrightarrow>
              (r = NotFound \<and> os_stat fs' (path_join d m) = None) \<or>
              (\<exists>e. r = Error e \<and> os_stat fs' (path_join d m) \<noteq> None \<and>
                   os_unlink fs' (path_join d m) = Inl e)"
          using P(6) still unl by auto
        show "\<And>m. m \<in> set (n # ns) \<Longrightarrow> os_stat fs (path_join d m) = None \<Longrightarrow>
                (m, NotFound) \<in> set ((n, Error e) # fl')"
          using P(7) Some by auto
      qed
      moreover have "delete_each d (map JStr (n # ns)) (dl, fl, freed) fs
                = (Inr (dl @ dl', fl @ ((n, Error e) # fl'), freed + freed_mb fs d dl'), fs')"
        using run Some Inl by simp
      ultimately show ?thesis by blast
    next
      case (Inr fs1)
      note after = stat_after_unlink [OF Inr]
      from Cons.IH [of "dl @ [n]" fl "freed + of_nat (st_size st) / (1024 * 1024)" fs1]
      obtain dl' fl' fs' where
        run: "delete_each d (map JStr ns) (dl @ [n], fl, freed + of_nat (st_size st) / (1024 * 1024)) fs1
                = (Inr ((dl @ [n]) @ dl', fl @ fl',
                        freed + of_nat (st_size st) / (1024 * 1024) + freed_mb fs1 d dl'), fs')"
        and post: "executor_post d ns fs1 dl' fl' fs'"
        by blast
      note P = executor_postD [OF post]
      have mono1: "os_stat fs1 x = Some s \<Longrightarrow> os_stat fs x = Some s" for x s
        using after [of x] by (simp split: if_splits)
      have same: "freed_mb fs1 d dl' = freed_mb fs d dl'"
      proof -
        have "size_on fs1 (path_join d m) = size_on fs (path_join d m)" if "m \<in> set dl'" for m
        proof -
          from that P(4) obtain s where "os_stat fs1 (path_join d m) = Some s" by blast
          then show ?thesis using mono1 by (simp add: size_on_def)
        qed
        then have "map (\<lambda>m. of_nat (size_on fs1 (path_join d m)) / (1024 * 1024 :: rat)) dl'
                 = map (\<lambda>m. of_nat (size_on fs (path_join d m)) / (1024 * 1024)) dl'"
          by simp
        then show ?thesis unfolding freed_mb_def by (rule arg_cong)
      qed
      have head: "freed_mb fs d (n # dl') = of_nat (st_size st) / (1024 * 1024) + freed_mb fs d dl'"
        using Some by (simp add: freed_mb_def size_on_def)
      have gone1: "os_stat fs1 ?p = None" using after [of ?p] by simp
      have gone: "os_stat fs' ?p = None"
        using P(2) gone1 by (rule stays_none)
      have reg: "kind st \<noteq> Directory"
        using Inr Some by (auto simp: os_unlink_def os_stat_def split: option.splits if_splits)
      have dirs: "os_stat fs1 x = Some s" if "os_stat fs x = Some s" "kind s = Directory" for x s
      proof -
        have "walk fs [] x \<noteq> walk fs [] ?p"
        proof
          assume eq: "walk fs [] x = walk fs [] ?p"
          then have "os_stat fs x = os_stat fs ?p" by (simp add: os_stat_def resolve_def)
          then have "s = st" using that Some by simp
          then show False using that reg by simp
        qed
        then show ?thesis using after [of x] that by simp
      qed
      have "executor_post d (n # ns) fs (n # dl') fl' fs'"
      proof (rule executor_postI)
        show "mset (n # dl') + mset (map fst fl') = mset (n # ns)"
          using P(1) by simp
        show "\<And>x s. os_stat fs' x = Some s \<Longrightarrow> os_stat fs x = Some s"
          using P(2) mono1 by blast
        show "\<And>x s. os_stat fs x = Some s \<Longrightarrow> kind s = Directory \<Longrightarrow> os_stat fs' x = Some s"
          using P(3) dirs by blast
        show "\<And>m. m \<in> set (n # dl') \<Longrightarrow>
                os_stat fs (path_join d m) \<noteq> None \<and> os_stat fs' (path_join d m) = None"
        proof -
          fix m assume "m \<in> set (n # dl')"
          then consider "m = n" | "m \<in> set dl'" by auto
          then show "os_stat fs (path_join d m) \<noteq> None \<and> os_stat fs' (path_join d m) = None"
          proof cases
            case 1
            then show ?thesis using Some gone by simp
          next
            case 2
            from P(4) [OF 2] obtain s where "os_stat fs1 (path_join d m) = Some s" by blast
            then have "os_stat fs (path_join d m) = Some s" by (rule mono1)
            then show ?thesis using P(5) [OF 2] by simp
          qed
        qed
        show "\<And>m r. (m, r) \<in> set fl' \<Longrightarrow>
            (r = NotFound \<and> os_stat fs' (path_join d m) = None) \<or>
            (\<exists>e. r = Error e \<and> os_stat fs' (path_join d m) \<noteq> None \<and>
                 os_unlink fs' (path_join d m) = Inl e)"
          by (rule P(6))
        show "\<And>m. m \<in> set (n # ns) \<Longrightarrow> os_stat fs (path_join d m) = None \<Longrightarrow>
                (m, NotFound) \<in> set fl'"
        proof -
          fix m assume m: "m \<in> set (n # ns)" "os_stat fs (path_join d m) = None"
          then have "m \<in> set ns" using Some by auto
          moreover have "os_stat fs1 (path_join d m) = None"
            using m after [of "path_join d m"] by simp
          ultimately show "(m, NotFound) \<in> set fl'" by (rule P(7))
        qed
      qed
      moreover have "delete_each d (map JStr (n # ns)) (dl, fl, freed) fs
                = (Inr (dl @ (n # dl'), fl @ fl', freed + freed_mb fs d (n # dl')), fs')"
        using run Some Inr same head by (simp add: add.assoc)
      ultimately show ?thesis by blast
    qed
  qed
qed

lemma delete_selected_files_spec:
  "\<exists>r fs'. delete_selected_files (map JStr names) d fs = (Inr r, fs')
     \<and> count_deleted r = length (deleted r)
     \<and> total_freed_mb r = freed_mb fs d (deleted r)
     \<and> executor_post d names fs (deleted r) (failed r) fs'"
proof -
  from delete_each_spec [of d names "[]" "[]" 0 fs]
  obtain dl fl fs' where
    run: "delete_each d (map JStr names) ([], [], 0) fs = (Inr (dl, fl, freed_mb fs d dl), fs')"
    and post: "executor_post d names fs dl fl fs'"
    by auto
  let ?r = "\<lparr> deleted = dl, failed = fl, total_freed_mb = freed_mb fs d dl,
              count_deleted = length dl \<rparr>"
  have "delete_selected_files (map JStr names) d fs = (Inr ?r, fs')"
    using run by (simp add: delete_selected_files_def)
  then show ?thesis using post by auto
qed

lemmas fs_eval =
  delete_selected_files_def os_stat_def os_unlink_def resolve_def inode_at_def path_join_def
  parse_parts_def disk0_def downloads0_def dir_node_def file_node_def root_inode_def




text \<open>
  Claim C8, as stated, fails on a selection that names a file twice: the file is deleted at
  its first occurrence and reported "not found" at the second, so the name is both a
  success and a failure.
\<close>

theorem delete_selected_files_duplicate_counterexample:
  "fst (delete_selected_files [JStr ''a.dmg'', JStr ''a.dmg''] downloads0 disk0) =
     Inr \<lparr> deleted = [''a.dmg''], failed = [(''a.dmg'', NotFound)],
           total_freed_mb = 2, count_deleted = 1 \<rparr>
   \<and> set [''a.dmg''] \<inter> fst ` set [(''a.dmg'', NotFound)] \<noteq> {}"
  by (simp add: fs_eval)

text \<open>
  Claim C8, amended. For every selection of pairwise different filenames the outcome of
  the executor has disjoint succeeded and failed sets: no filename is both a success and a
  failure.
\<close>

theorem delete_selected_files_disjoint_when_distinct:
  assumes "distinct names"
    and "delete_selected_files (map JStr names) d fs = (Inr r, fs')"
  shows "set (deleted r) \<inter> fst ` set (failed r) = {}"
proof -
  from delete_selected_files_spec [of names d fs] assms(2)
  have post: "executor_post d names fs (deleted r) (failed r) fs'"
    by auto
  have "mset (deleted r @ map fst (failed r)) = mset names"
    using executor_postD(1) [OF post] by simp
  then have "distinct (deleted r @ map fst (failed r))"
    using assms(1) mset_eq_imp_distinct_iff by blast
  then show ?thesis by auto
qed

theorem delete_selected_files_disjoint_when_distinct_witness:
  "distinct [''a.dmg'', ''b.zip'', ''c.iso'']
   \<and> delete_selected_files (map JStr [''a.dmg'', ''b.zip'', ''c.iso'']) downloads0 disk0 =
       (Inr \<lparr> deleted = [''a.dmg'', ''c.iso''], failed = [(''b.zip'', NotFound)],
              total_freed_mb = 3, count_deleted = 2 \<rparr>,
        [([''home''], dir_node), ([''home'', ''u''], dir_node),
         ([''home'', ''u'', ''Downloads''], dir_node),
         ([''home'', ''u'', ''x''], file_node 1048576),
         ([''home'', ''u'', ''Downloads'', ''sub''], dir_node)])
   \<and> set [''a.dmg'', ''c.iso''] \<inter> fst ` set [(''b.zip'', NotFound)] = {}"
proof -
  have d: "distinct [''a.dmg'', ''b.zip'', ''c.iso'']" by simp
  have run: "delete_selected_files (map JStr [''a.dmg'', ''b.zip'', ''c.iso'']) downloads0 disk0 =
       (Inr \<lparr> deleted = [''a.dmg'', ''c.iso''], failed = [(''b.zip'', NotFound)],
              total_freed_mb = 3, count_deleted = 2 \<rparr>,
        [([''home''], dir_node), ([''home'', ''u''], dir_node),
         ([''home'', ''u'', ''Downloads''], dir_node),
         ([''home'', ''u'', ''x''], file_node 1048576),
         ([''home'', ''u'', ''Downloads'', ''sub''], dir_node)])"
    by (simp add: fs_eval)
  from delete_selected_files_disjoint_when_distinct [OF d run]
  show ?thesis using d run by simp
qed

subsection \<open>Targets outside the scanned directory\<close>

lemma split_slash_plain: "CHR ''/'' \<notin> set x \<Longrightarrow> split_slash x = [x]"
  by (induction x) auto

lemma split_slash_parent:
  "CHR ''/'' \<notin> set x \<Longrightarrow> split_slash (''../'' @ x) = [''..'', x]"
  by (simp add: split_slash_plain)

lemma parse_parts_parent:
  assumes "CHR ''/'' \<notin> set x" and "x \<noteq> []" and "x \<noteq> ''.''"
  shows "parse_parts (''../'' @ x) = [''..'', x]"
  unfolding parse_parts_def split_slash_parent [OF assms(1)] using assms(2,3) by simp

lemma walk_append:
  "walk fs cur (xs @ ys) = (case walk fs cur xs of None \<Rightarrow> None | Some q \<Rightarrow> walk fs q ys)"
  by (induction xs arbitrary: cur) (auto split: option.splits)

text \<open>
  Claim C10. The executor joins the scanned directory with the selected filename and
  removes what the joined path resolves to, without checking where that is: whenever the
  scanned directory \<open>d\<close> is an existing directory below the root and its parent holds a
  regular file \<open>x\<close>, selecting the filename \<^verbatim>\<open>../x\<close> makes the executor resolve its target to
  that file, which lies outside \<open>d\<close>, and delete it.
\<close>

theorem executor_target_outside_scanned_directory:
  assumes "d \<noteq> []"
    and "walk fs [] d = Some d"
    and "inode_at fs d = Some nd" and "kind nd = Directory"
    and "inode_at fs (butlast d) = Some np" and "kind np = Directory"
    and "CHR ''/'' \<notin> set x" and "x \<noteq> []" and "x \<noteq> ''.''" and "x \<noteq> ''..''"
    and "inode_at fs (butlast d @ [x]) = Some st" and "kind st = Regular"
  shows "path_join d (''../'' @ x) = d @ [''..'', x]
       \<and> resolve fs (path_join d (''../'' @ x)) = Some (butlast d @ [x])
       \<and> \<not> inside d (butlast d @ [x])
       \<and> (\<exists>r fs'. delete_selected_files [JStr (''../'' @ x)] d fs = (Inr r, fs')
             \<and> deleted r = [''../'' @ x] \<and> failed r = []
             \<and> inode_at fs' (butlast d @ [x]) = None)"
proof -
  let ?q = "butlast d @ [x]"
  have pp: "parse_parts (''../'' @ x) = [''..'', x]"
    using assms(7-9) by (rule parse_parts_parent)
  have join: "path_join d (''../'' @ x) = d @ [''..'', x]"
    unfolding path_join_def pp by simp
  have "walk fs d [''..'', x] = Some ?q"
    using assms by simp
  then have w: "walk fs [] (d @ [''..'', x]) = Some ?q"
    using assms(2) by (simp add: walk_append)
  then have res: "resolve fs (path_join d (''../'' @ x)) = Some ?q"
    using assms(11) join by (simp add: resolve_def)
  have out: "\<not> inside d ?q"
  proof
    assume "inside d ?q"
    then obtain zs where zs: "?q = d @ zs" by (auto simp: inside_def prefix_def)
    have "length ?q = length d" using assms(1) by simp
    then have "zs = []" using zs by (metis append_eq_conv_conj length_append add_cancel_left_right length_0_conv)
    then have "?q = d" using zs by simp
    then show False using assms(3,4,11,12) by simp
  qed
  have stat: "os_stat fs (path_join d (''../'' @ x)) = Some st"
    using res assms(11) by (simp add: os_stat_def)
  have ne: "?q \<noteq> []" by simp
  have unl: "os_unlink fs (path_join d (''../'' @ x)) = Inr [e \<leftarrow> fs. fst e \<noteq> ?q]"
    using res assms(11,12) by (simp add: os_unlink_def)
  have "delete_selected_files [JStr (''../'' @ x)] d fs =
          (Inr \<lparr> deleted = [''../'' @ x], failed = [],
                 total_freed_mb = of_nat (st_size st) / (1024 * 1024), count_deleted = 1 \<rparr>,
           [e \<leftarrow> fs. fst e \<noteq> ?q])"
    using stat unl by (simp add: delete_selected_files_def)
  moreover have "inode_at [e \<leftarrow> fs. fst e \<noteq> ?q] ?q = None"
    using ne by (simp add: inode_at_drop)
  ultimately show ?thesis using join res out by simp
qed

theorem executor_target_outside_scanned_directory_witness:
  "downloads0 \<noteq> []
   \<and> walk disk0 [] downloads0 = Some downloads0
   \<and> inode_at disk0 downloads0 = Some dir_node \<and> kind dir_node = Directory
   \<and> inode_at disk0 (butlast downloads0) = Some dir_node
   \<and> CHR ''/'' \<notin> set ''x'' \<and> ''x'' \<noteq> [] \<and> ''x'' \<noteq> ''.'' \<and> ''x'' \<noteq> ''..''
   \<and> inode_at disk0 (butlast downloads0 @ [''x'']) = Some (file_node 1048576)
   \<and> kind (file_node 1048576) = Regular
   \<and> butlast downloads0 @ [''x''] = [''home'', ''u'', ''x'']
   \<and> path_join downloads0 (''../'' @ ''x'') = downloads0 @ [''..'', ''x'']
   \<and> resolve disk0 (path_join downloads0 (''../'' @ ''x'')) = Some (butlast downloads0 @ [''x''])
   \<and> \<not> inside downloads0 (butlast downloads0 @ [''x''])
   \<and> (\<exists>r fs'. delete_selected_files [JStr (''../'' @ ''x'')] downloads0 disk0 = (Inr r, fs')
         \<and> deleted r = [''../'' @ ''x''] \<and> failed r = []
         \<and> inode_at fs' (butlast downloads0 @ [''x'']) = None)"
proof -
  have h: "downloads0 \<noteq> []" "walk disk0 [] downloads0 = Some downloads0"
    "inode_at disk0 downloads0 = Some dir_node" "kind dir_node = Directory"
    "inode_at disk0 (butlast downloads0) = Some dir_node" "kind dir_node = Directory"
    "CHR ''/'' \<notin> set ''x''" "''x'' \<noteq> []" "''x'' \<noteq> ''.''" "''x'' \<noteq> ''..''"
    "inode_at disk0 (butlast downloads0 @ [''x'']) = Some (file_node 1048576)"
    "kind (file_node 1048576) = Regular"
    by (simp_all add: fs_eval)
  have b: "butlast downloads0 @ [''x''] = [''home'', ''u'', ''x'']"
    by (simp add: downloads0_def)
  note c = executor_target_outside_scanned_directory [OF h]
  show ?thesis
    using h b c by blast
qed

subsection \<open>The kept-files store\<close>









subsection \<open>Suggestions with an unknown confidence\<close>

text \<open>
  Claim C6 fails on \<open>display_suggestions\<close>: the listing is built from the three groups
  high, medium and low only, so a suggestion with any other confidence is counted in the
  header and then shown in no group. For the batch of \<^verbatim>\<open>a.dmg\<close> (high) and \<^verbatim>\<open>c.iso\<close>
  (unknown) the display announces two files and lists only \<^verbatim>\<open>a.dmg\<close>, while the checkbox
  choices of the two prompts do hold \<^verbatim>\<open>c.iso\<close>, under the default marker.
\<close>

theorem display_suggestions_drops_unknown_confidence:
  "display_suggestions batch0 =
     Inr [SummaryScanned (JInt 3), SummarySuggested (JInt 2), SummarySpace (JFloat 3),
          SuggestedCount 2, GroupHeader High, ItemName (JStr ''a.dmg''),
          ItemReason (JStr ''Old installer''), ItemSize (JFloat 2), ItemAge (JInt 200),
          ReviewCarefully]
   \<and> checkbox_choices (JArr [suggestion_a, suggestion_c]) = Inr choices0
   \<and> map (label_marker \<circ> choice_title) choices0 = [RedCircle, WhiteCircle]"
  by (simp add: display_suggestions_def display_group_def display_item_def with_confidence_def
        confidence_of_def and_then_def checkbox_choices_def make_choice_def confidence_emoji_def
        batch0_def suggestion_a_def suggestion_c_def choices0_def lower_char_def)

subsection \<open>Runs of the session\<close>

lemma seqE:
  assumes "seq act f w = (r, w')"
  obtains (raised) e where "act w = (Inl e, w')" and "r = Inl e"
  | (went_on) x w1 where "act w = (Inr x, w1)" and "f x w1 = (r, w')"
  using assms by (auto simp: seq_def split: prod.splits sum.splits)

lemma holdsI: "(\<And>w r w'. act w = (r, w') \<Longrightarrow> R w w') \<Longrightarrow> holds R act"
  by (simp add: holds_def)

lemma holdsD: "holds R act \<Longrightarrow> act w = (r, w') \<Longrightarrow> R w w'"
  by (simp add: holds_def)

lemma holds_seq:
  assumes "\<And>a b c. R a b \<Longrightarrow> R b c \<Longrightarrow> R a c"
    and "holds R act" and "\<And>x. holds R (f x)"
  shows "holds R (seq act f)"
proof (rule holdsI)
  fix w r w' assume "seq act f w = (r, w')"
  then show "R w w'"
  proof (cases rule: seqE)
    case (raised e)
    then show ?thesis using assms(2) holdsD by fastforce
  next
    case (went_on x w1)
    have "R w w1" using went_on(1) assms(2) holdsD by fastforce
    moreover have "R w1 w'" using went_on(2) assms(3) holdsD by fastforce
    ultimately show ?thesis by (rule assms(1))
  qed
qed

lemma holds_lift: "(\<And>w. R w w) \<Longrightarrow> holds R (lift v)"
  by (simp add: holds_def lift_def)

lemma holds_if: "(c \<Longrightarrow> holds R a) \<Longrightarrow> (\<not> c \<Longrightarrow> holds R b) \<Longrightarrow> holds R (if c then a else b)"
  by simp

lemma holds_weaken: "(\<And>w w'. R w w' \<Longrightarrow> S w w') \<Longrightarrow> holds R act \<Longrightarrow> holds S act"
  by (simp add: holds_def)

lemma warned_only_refl: "warned_only w w"
  unfolding warned_only_def by (rule exI [of _ "[]"]) simp

lemma warned_only_trans: "warned_only a b \<Longrightarrow> warned_only b c \<Longrightarrow> warned_only a c"
  unfolding warned_only_def
proof (elim exE conjE)
  fix evs1 evs2
  assume "b = a\<lparr>trace := trace a @ evs1\<rparr>" "list_all is_warning evs1"
    "c = b\<lparr>trace := trace b @ evs2\<rparr>" "list_all is_warning evs2"
  then have "c = a\<lparr>trace := trace a @ (evs1 @ evs2)\<rparr> \<and> list_all is_warning (evs1 @ evs2)"
    by simp
  then show "\<exists>evs. c = a\<lparr>trace := trace a @ evs\<rparr> \<and> list_all is_warning evs" by blast
qed

lemma warned_only_seq:
  assumes "holds warned_only act" and "\<And>x. holds warned_only (f x)"
  shows "holds warned_only (seq act f)"
proof (rule holds_seq)
  show "\<And>a b c. warned_only a b \<Longrightarrow> warned_only b c \<Longrightarrow> warned_only a c"
    by (rule warned_only_trans)
qed (fact assms)+

lemma warned_only_emit: "holds warned_only (emit (Warned m))"
  unfolding holds_def warned_only_def emit_def
  by (auto intro!: exI [of _ "[Warned m]"] simp: is_warning_def)

lemma nothing_deleted_refl: "nothing_deleted w w"
  unfolding nothing_deleted_def by simp

lemma nothing_deleted_trans:
  assumes "nothing_deleted a b" and "nothing_deleted b c"
  shows "nothing_deleted a c"
proof -
  from assms obtain evs1 evs2 where e: "trace b = trace a @ evs1" "\<not> list_ex is_deletion evs1"
    "trace c = trace b @ evs2" "\<not> list_ex is_deletion evs2"
    unfolding nothing_deleted_def by blast
  then have "trace c = trace a @ (evs1 @ evs2) \<and> \<not> list_ex is_deletion (evs1 @ evs2)"
    by (auto simp: list_ex_iff)
  then have "\<exists>evs. trace c = trace a @ evs \<and> \<not> list_ex is_deletion evs" by blast
  then show ?thesis using assms unfolding nothing_deleted_def by blast
qed

lemma nothing_deleted_seq:
  assumes "holds nothing_deleted act" and "\<And>x. holds nothing_deleted (f x)"
  shows "holds nothing_deleted (seq act f)"
proof (rule holds_seq)
  show "\<And>a b c. nothing_deleted a b \<Longrightarrow> nothing_deleted b c \<Longrightarrow> nothing_deleted a c"
    by (rule nothing_deleted_trans)
qed (fact assms)+

lemma warning_not_deletion: "is_warning e \<Longrightarrow> \<not> is_deletion e"
  by (cases e) (simp_all add: is_warning_def is_deletion_def)

lemma warned_only_nothing_deleted:
  assumes "warned_only w w'"
  shows "nothing_deleted w w'"
proof -
  from assms obtain evs where e: "w' = w\<lparr>trace := trace w @ evs\<rparr>" "list_all is_warning evs"
    unfolding warned_only_def by blast
  then have "\<not> list_ex is_deletion evs"
    using warning_not_deletion by (auto simp: list_ex_iff list_all_iff)
  then show ?thesis using e(1) unfolding nothing_deleted_def by simp
qed

text \<open>Adding events that are not the executor's, and changing neither disk nor trace.\<close>

lemma nothing_deleted_emit: "\<not> is_deletion e \<Longrightarrow> holds nothing_deleted (emit e)"
  unfolding holds_def nothing_deleted_def emit_def by auto

lemma nothing_deleted_same:
  "disk w' = disk w \<Longrightarrow> trace w' = trace w \<Longrightarrow> nothing_deleted w w'"
  unfolding nothing_deleted_def by simp

subsubsection \<open>The steps before the prompts\<close>

lemma get_downloads_folder_same: "get_downloads_folder w = (r, w') \<Longrightarrow> w' = w"
  by (auto simp: get_downloads_folder_def Let_def split: if_splits)

lemma scan_items_warned: "scan_items d nms w = (r, w') \<Longrightarrow> warned_only w w'"
proof (induction nms arbitrary: w r w')
  case Nil
  then show ?case by (simp add: warned_only_refl)
next
  case (Cons nm nms)
  show ?case
  proof (cases "os_stat (disk w) (d @ [nm])")
    case None
    with Cons.prems have "seq (emit (Warned (''Could not access '' @ nm))) (\<lambda>_. scan_items d nms) w = (r, w')"
      by simp
    moreover have "holds warned_only (seq (emit (Warned (''Could not access '' @ nm))) (\<lambda>_. scan_items d nms))"
      by (rule warned_only_seq [OF warned_only_emit]) (rule holdsI, erule Cons.IH)
    ultimately show ?thesis by (rule holdsD [rotated])
  next
    case (Some st)
    with Cons.prems obtain r0 where "scan_items d nms w = (r0, w')"
      by (auto split: prod.splits sum.splits)
    then show ?thesis by (rule Cons.IH)
  qed
qed

lemma scan_downloads_folder_warned: "holds warned_only (scan_downloads_folder d)"
  unfolding holds_def scan_downloads_folder_def
  by (auto simp: warned_only_refl scan_items_warned split: option.splits if_splits)

lemma load_kept_files_warned: "holds warned_only load_kept_files"
proof (rule holdsI)
  fix w r w' assume run: "load_kept_files w = (r, w')"
  have warn: "holds warned_only
      (seq (emit (Warned ''Could not load kept files database'')) (\<lambda>_. lift (Inr [])))" for x :: "json list"
    by (rule warned_only_seq [OF warned_only_emit]) (rule holds_lift, rule warned_only_refl)
  show "warned_only w w'"
  proof (cases "kept_files_db w")
    case Absent
    then show ?thesis using run by (auto simp: load_kept_files_def warned_only_refl)
  next
    case Corrupt
    then show ?thesis using run holdsD [OF warn] by (simp add: load_kept_files_def)
  next
    case (Doc data)
    show ?thesis
    proof (cases "db_filenames data")
      case (Inr names)
      then show ?thesis using run Doc by (auto simp: load_kept_files_def warned_only_refl)
    next
      case (Inl e)
      then show ?thesis using run Doc holdsD [OF warn]
        by (cases e) (auto simp: load_kept_files_def warned_only_refl)
    qed
  qed
qed

lemma get_deletion_suggestions_run:
  "get_deletion_suggestions files client w =
     (case client of
        ServiceFailure m \<Rightarrow>
          (Inl (APIError m),
           w\<lparr>trace := trace w @ [OracleAsked (request_for files), ServiceErrorPrinted m]\<rparr>)
      | NotJSON raw \<Rightarrow>
          (Inl (JSONDecodeError raw),
           w\<lparr>trace := trace w @ [OracleAsked (request_for files), RawResponsePrinted raw]\<rparr>)
      | Decoded result \<Rightarrow>
          (Inr result, w\<lparr>trace := trace w @ [OracleAsked (request_for files)]\<rparr>))"
  by (cases client) (simp_all add: get_deletion_suggestions_def seq_def emit_def lift_def)

lemma get_deletion_suggestions_nothing_deleted:
  "holds nothing_deleted (get_deletion_suggestions files client)"
  unfolding holds_def nothing_deleted_def get_deletion_suggestions_run
  by (cases client) (auto simp: is_deletion_def)

lemma inode_at_update: "inode_at fs p \<noteq> None \<Longrightarrow> inode_at (AList.update q n fs) p \<noteq> None"
  by (auto simp: inode_at_def update_conv')

lemma save_suggestions_nothing_deleted: "holds nothing_deleted (save_suggestions d n)"
proof (rule holdsI)
  fix w r w' assume run: "save_suggestions d n w = (r, w')"
  let ?node = "\<lparr>st_size = n, st_mtime = isoformat w (clock w), kind = Regular\<rparr>"
  show "nothing_deleted w w'"
  proof (cases "os_write (disk w) (path_join d ''cleanup_suggestions.json'') ?node")
    case (Inl e)
    then have "w' = w" using run by (simp add: save_suggestions_def)
    then show ?thesis by (simp add: nothing_deleted_refl)
  next
    case (Inr fs')
    then obtain q where fs': "fs' = AList.update q ?node (disk w)"
      by (auto simp: os_write_def split: option.splits if_splits)
    from Inr run have w': "w' = w\<lparr>disk := fs', trace := trace w @ [ArtifactWritten (path_join d ''cleanup_suggestions.json'')]\<rparr>"
      by (simp add: save_suggestions_def emit_def)
    have "\<forall>p. inode_at (disk w) p \<noteq> None \<longrightarrow> inode_at (disk w') p \<noteq> None"
      using w' fs' inode_at_update by simp
    moreover have "\<exists>evs. trace w' = trace w @ evs \<and> \<not> list_ex is_deletion evs"
      using w' by (simp add: is_deletion_def)
    ultimately show ?thesis unfolding nothing_deleted_def by blast
  qed
qed

subsubsection \<open>The prompts and the database writes\<close>

lemma nothing_deleted_lift: "holds nothing_deleted (lift v)"
  by (rule holds_lift) (rule nothing_deleted_refl)

lemma nothing_deleted_warned: "holds warned_only act \<Longrightarrow> holds nothing_deleted act"
  by (rule holds_weaken [of warned_only]) (rule warned_only_nothing_deleted)

lemma interactive_file_selection_nothing_deleted:
  "holds nothing_deleted (interactive_file_selection suggestions answer)"
  unfolding interactive_file_selection_def
  by (intro nothing_deleted_seq nothing_deleted_lift holds_if nothing_deleted_emit)
     (simp add: is_deletion_def)

lemma mark_files_as_keep_nothing_deleted:
  "holds nothing_deleted (mark_files_as_keep suggestions answer)"
  unfolding mark_files_as_keep_def
  by (intro nothing_deleted_seq nothing_deleted_lift holds_if nothing_deleted_emit)
     (simp add: is_deletion_def)

lemma deletion_step_declined:
  assumes "confirm \<noteq> Some True"
  shows "holds nothing_deleted (deletion_step selected_files d confirm)"
  unfolding deletion_step_def using assms
  by (auto intro!: nothing_deleted_seq nothing_deleted_emit simp: is_deletion_def)

lemma datetime_now_nothing_deleted: "holds nothing_deleted datetime_now"
  unfolding holds_def datetime_now_def by (auto intro: nothing_deleted_same)

lemma write_db_nothing_deleted: "holds nothing_deleted (write_db data)"
  unfolding holds_def write_db_def emit_def nothing_deleted_def
  by (auto simp: is_deletion_def)

lemma save_kept_file_nothing_deleted: "holds nothing_deleted (save_kept_file filename)"
proof (rule holdsI)
  fix w r w' assume run: "save_kept_file filename w = (r, w')"
  define data where "data = (case kept_files_db w of Doc j \<Rightarrow> j | _ \<Rightarrow> fresh_db)"
  let ?act = "seq (lift (db_filenames data)) (\<lambda>existing_filenames.
        if \<not> hashable filename then lift (Inl TypeError)
        else if list_ex (py_eq filename) existing_filenames then lift (Inr ())
        else
          seq datetime_now (\<lambda>marked.
          seq (lift (append_kept data
                 (JObj [(''filename'', filename), (''marked_date'', JStr marked),
                        (''reason'', JStr ''User explicitly marked as keep'')]))) (\<lambda>data1.
          seq datetime_now (\<lambda>updated.
          seq (lift (set_last_updated data1 updated)) write_db))))"
  have "holds nothing_deleted ?act"
    by (intro nothing_deleted_seq nothing_deleted_lift holds_if datetime_now_nothing_deleted
          write_db_nothing_deleted)
  moreover have "?act w = (r, w')"
    using run unfolding save_kept_file_def Let_def data_def by simp
  ultimately show "nothing_deleted w w'" by (rule holdsD)
qed

lemma save_all_nothing_deleted: "holds nothing_deleted (save_all filenames)"
proof (induction filenames)
  case Nil
  show ?case by (simp add: holds_def nothing_deleted_refl)
next
  case (Cons filename rest)
  have "save_all (filename # rest) = seq (save_kept_file filename) (\<lambda>_. save_all rest)"
    by (rule ext) (simp add: seq_def split: prod.splits sum.splits)
  then show ?case
    using Cons save_kept_file_nothing_deleted by (simp add: nothing_deleted_seq)
qed

lemma keep_step_nothing_deleted: "holds nothing_deleted (keep_step suggestions answer)"
  unfolding keep_step_def
  by (intro nothing_deleted_seq nothing_deleted_lift holds_if nothing_deleted_emit
        mark_files_as_keep_nothing_deleted save_all_nothing_deleted)
     (simp add: is_deletion_def)

lemma selection_phase_declined:
  assumes "confirm_answer inp \<noteq> Some True"
  shows "holds nothing_deleted (selection_phase suggestions d inp)"
  unfolding selection_phase_def
  by (intro nothing_deleted_seq nothing_deleted_lift holds_if
        interactive_file_selection_nothing_deleted deletion_step_declined [OF assms]
        keep_step_nothing_deleted)

lemma get_downloads_folder_nothing_deleted: "holds nothing_deleted get_downloads_folder"
  unfolding holds_def using get_downloads_folder_same nothing_deleted_refl by blast

lemma session_declined:
  assumes "confirm_answer inp \<noteq> Some True"
  shows "holds nothing_deleted (run_cleanup_session inp)"
  unfolding run_cleanup_session_def
  by (intro nothing_deleted_seq nothing_deleted_lift holds_if
        get_downloads_folder_nothing_deleted
        nothing_deleted_warned [OF scan_downloads_folder_warned]
        nothing_deleted_warned [OF load_kept_files_warned]
        get_deletion_suggestions_nothing_deleted nothing_deleted_emit
        save_suggestions_nothing_deleted selection_phase_declined [OF assms])
     (simp add: is_deletion_def)

lemmas session_eval =
  run_cleanup_session_def selection_phase_def seq_def lift_def emit_def get_downloads_folder_def
  scan_downloads_folder_def listdir_def load_kept_files_def
  get_deletion_suggestions_def display_suggestions_def display_group_def display_item_def
  with_confidence_def confidence_of_def and_then_def save_suggestions_def os_write_def
  interactive_file_selection_def mark_files_as_keep_def checkbox_choices_def make_choice_def
  confidence_emoji_def deletion_step_def run_executor_def keep_step_def selected_of_def
  world0_def batch0_def suggestion_a_def suggestion_c_def session0_def lower_char_def
  choices0_def Let_def

text \<open>
  Claim C1. If the operator does not answer "yes" to the confirmation (the answer is "no",
  or the prompt is cancelled), the session never invokes the deletion executor and
  removes no entry of the file system: everything that was on the disk before the session
  is on it afterwards, and the trace of the session shows neither a call of the executor
  nor a deletion outcome. This holds however the session ends.
\<close>

theorem declined_confirmation_deletes_nothing:
  assumes "confirm_answer inp \<noteq> Some True"
    and "run_cleanup_session inp w = (r, w')"
  shows "(\<forall>p. inode_at (disk w) p \<noteq> None \<longrightarrow> inode_at (disk w') p \<noteq> None)
       \<and> (\<exists>evs. trace w' = trace w @ evs \<and> \<not> list_ex is_deletion evs)"
  using holdsD [OF session_declined [OF assms(1)] assms(2)]
  by (simp add: nothing_deleted_def)

theorem declined_confirmation_deletes_nothing_witness:
  "confirm_answer (session0 (Decoded batch0) None []) \<noteq> Some True
   \<and> fst (run_cleanup_session (session0 (Decoded batch0) None []) world0) = Inr ()
   \<and> DeleteAsked choices0 \<in> set (trace (snd (run_cleanup_session (session0 (Decoded batch0) None []) world0)))
   \<and> ConfirmAsked 1 \<in> set (trace (snd (run_cleanup_session (session0 (Decoded batch0) None []) world0)))
   \<and> DeletionCancelled \<in> set (trace (snd (run_cleanup_session (session0 (Decoded batch0) None []) world0)))
   \<and> inode_at disk0 (downloads0 @ [''a.dmg'']) \<noteq> None
   \<and> inode_at (disk (snd (run_cleanup_session (session0 (Decoded batch0) None []) world0)))
        (downloads0 @ [''a.dmg'']) \<noteq> None
   \<and> (\<exists>evs. trace (snd (run_cleanup_session (session0 (Decoded batch0) None []) world0)) =
               trace world0 @ evs \<and> \<not> list_ex is_deletion evs)"
proof -
  let ?inp = "session0 (Decoded batch0) None []"
  let ?w = "snd (run_cleanup_session ?inp world0)"
  have h: "confirm_answer ?inp \<noteq> Some True"
    by (simp add: session0_def)
  have run: "run_cleanup_session ?inp world0 = (fst (run_cleanup_session ?inp world0), ?w)"
    by simp
  have there: "inode_at disk0 (downloads0 @ [''a.dmg'']) \<noteq> None"
    by (simp add: fs_eval)
  have shown: "fst (run_cleanup_session ?inp world0) = Inr ()"
    "DeleteAsked choices0 \<in> set (trace ?w)" "ConfirmAsked 1 \<in> set (trace ?w)"
    "DeletionCancelled \<in> set (trace ?w)"
    by (simp_all add: session_eval fs_eval)
  have "disk world0 = disk0" by (simp add: world0_def)
  with declined_confirmation_deletes_nothing [OF h run] there h shown
  show ?thesis by simp
qed

subsection \<open>Payloads of the model service\<close>

text \<open>
  Claim C2, as stated, fails on the payload \<^verbatim>\<open>{}\<close>, which lacks the \<^verbatim>\<open>suggestions\<close> key: the
  advisory client returns it as it is, and the session goes on with the defaults of the
  lookups, reports that nothing is suggested and ends normally.
\<close>

theorem missing_suggestions_key_counterexample:
  "fst (get_deletion_suggestions [] (Decoded (JObj [])) world0) = Inr (JObj [])
   \<and> display_suggestions (JObj []) =
       Inr [SummaryScanned (JInt 0), SummarySuggested (JInt 0), SummarySpace (JInt 0),
            NothingSuggested]
   \<and> fst (run_cleanup_session (session0 (Decoded (JObj [])) None []) world0) = Inr ()"
  by (simp add: session_eval fs_eval)

lemma not_json_session:
  assumes "oracle_reply inp = NotJSON raw" and "run_cleanup_session inp w = (r, w')"
  shows "\<exists>evs. list_all is_warning evs \<and>
           (w' = w\<lparr>trace := trace w @ evs\<rparr> \<or>
            (\<exists>req. w' = w\<lparr>trace := trace w @ evs @ [OracleAsked req, RawResponsePrinted raw]\<rparr>
                   \<and> r = Inl (JSONDecodeError raw)))"
proof -
  have fin: "warned_only w w1 \<Longrightarrow> \<exists>evs. list_all is_warning evs \<and>
           (w1 = w\<lparr>trace := trace w @ evs\<rparr> \<or>
            (\<exists>req. w1 = w\<lparr>trace := trace w @ evs @ [OracleAsked req, RawResponsePrinted raw]\<rparr>
                   \<and> r = Inl (JSONDecodeError raw)))" for w1
    unfolding warned_only_def by blast
  from assms(2) [unfolded run_cleanup_session_def] show ?thesis
  proof (cases rule: seqE)
    case (raised e)
    from raised(1) have "w' = w" by (rule get_downloads_folder_same)
    then show ?thesis using fin warned_only_refl by blast
  next
    case (went_on d w1)
    then have w1: "w1 = w" using get_downloads_folder_same by blast
    from went_on(2) show ?thesis
    proof (cases rule: seqE)
      case (raised e)
      then have "warned_only w w'"
        using w1 holdsD [OF scan_downloads_folder_warned] by blast
      then show ?thesis by (rule fin)
    next
      case (went_on files w2)
      then have w2: "warned_only w w2"
        using w1 holdsD [OF scan_downloads_folder_warned] by blast
      show ?thesis
      proof (cases "files = []")
        case True
        then have "w' = w2" using went_on(2) by (simp add: lift_def)
        then show ?thesis using w2 fin by blast
      next
        case False
        with went_on(2) have "seq load_kept_files (\<lambda>kept_filenames.
            seq (get_deletion_suggestions
                  (if kept_filenames \<noteq> []
                   then filter_kept_files files (kept_strings kept_filenames) else files)
                  (oracle_reply inp)) (\<lambda>suggestions.
            seq (lift (display_suggestions suggestions)) (\<lambda>shown.
            seq (emit (Displayed shown)) (\<lambda>_.
            seq (save_suggestions d (dump_size inp)) (\<lambda>_.
              selection_phase suggestions d inp))))) w2 = (r, w')"
          by simp
        then show ?thesis
        proof (cases rule: seqE)
          case (raised e)
          then have "warned_only w2 w'"
            using holdsD [OF load_kept_files_warned] by blast
          then have "warned_only w w'" using w2 warned_only_trans by blast
          then show ?thesis by (rule fin)
        next
          case (went_on kept w3)
          then have "warned_only w2 w3"
            using holdsD [OF load_kept_files_warned] by blast
          then have "warned_only w w3" using w2 warned_only_trans by blast
          then obtain evs where evs: "w3 = w\<lparr>trace := trace w @ evs\<rparr>" "list_all is_warning evs"
            unfolding warned_only_def by blast
          from went_on(2) show ?thesis
          proof (cases rule: seqE)
            case (raised e)
            then have "r = Inl (JSONDecodeError raw)"
              and "w' = w3\<lparr>trace := trace w3 @
                     [OracleAsked (request_for (if kept \<noteq> []
                        then filter_kept_files files (kept_strings kept) else files)),
                      RawResponsePrinted raw]\<rparr>"
              using assms(1) by (auto simp: get_deletion_suggestions_run)
            then show ?thesis using evs by auto
          next
            case (went_on suggestions w4)
            then show ?thesis using assms(1) by (simp add: get_deletion_suggestions_run)
          qed
        qed
      qed
    qed
  qed
qed

text \<open>
  Claim C2, amended. For every payload that is not JSON, the advisory client raises the
  parse error, which carries the raw payload, after asking the service once and printing
  the raw payload; a session that receives such a payload changes nothing but the trace
  (the suppression store and the file system are as before), and if the service was asked
  at all the session ends with that error. A payload that decodes is returned as it is,
  whatever its shape; when it is an object without the \<^verbatim>\<open>suggestions\<close> key, the interactive
  part of the session does nothing.
\<close>

theorem malformed_payload_handling:
  "get_deletion_suggestions files (NotJSON raw) w =
     (Inl (JSONDecodeError raw),
      w\<lparr>trace := trace w @ [OracleAsked (request_for files), RawResponsePrinted raw]\<rparr>)
   \<and> (oracle_reply inp = NotJSON raw \<longrightarrow> run_cleanup_session inp w = (r, w') \<longrightarrow>
        (\<exists>evs. list_all is_warning evs \<and>
           (w' = w\<lparr>trace := trace w @ evs\<rparr> \<or>
            (\<exists>req. w' = w\<lparr>trace := trace w @ evs @ [OracleAsked req, RawResponsePrinted raw]\<rparr>
                   \<and> r = Inl (JSONDecodeError raw)))))
   \<and> get_deletion_suggestions files (Decoded j) w =
       (Inr j, w\<lparr>trace := trace w @ [OracleAsked (request_for files)]\<rparr>)
   \<and> (map_of kvs ''suggestions'' = None \<longrightarrow>
        selection_phase (JObj kvs) d inp w = (Inr (), w))"
proof -
  have "map_of kvs ''suggestions'' = None \<longrightarrow> selection_phase (JObj kvs) d inp w = (Inr (), w)"
    by (simp add: selection_phase_def seq_def lift_def)
  then show ?thesis
    using not_json_session [of inp raw w r w'] by (simp add: get_deletion_suggestions_run)
qed

theorem malformed_payload_handling_witness:
  "oracle_reply (session0 (NotJSON ''oops'') None []) = NotJSON ''oops''
   \<and> fst (run_cleanup_session (session0 (NotJSON ''oops'') None []) world0) =
       Inl (JSONDecodeError ''oops'')
   \<and> disk (snd (run_cleanup_session (session0 (NotJSON ''oops'') None []) world0)) = disk world0
   \<and> kept_files_db (snd (run_cleanup_session (session0 (NotJSON ''oops'') None []) world0)) =
       kept_files_db world0
   \<and> map_of [] ''suggestions'' = (None :: json option)
   \<and> selection_phase (JObj []) downloads0 (session0 (Decoded (JObj [])) None []) world0 =
       (Inr (), world0)"
proof -
  let ?inp = "session0 (NotJSON ''oops'') None []"
  have h: "oracle_reply ?inp = NotJSON ''oops''" by (simp add: session0_def)
  have run: "run_cleanup_session ?inp world0 =
               (fst (run_cleanup_session ?inp world0), snd (run_cleanup_session ?inp world0))"
    by simp
  have r: "fst (run_cleanup_session ?inp world0) = Inl (JSONDecodeError ''oops'')"
    by (simp add: session_eval fs_eval)
  note t = malformed_payload_handling [of "[]" "''oops''" world0 ?inp
      "fst (run_cleanup_session ?inp world0)" "snd (run_cleanup_session ?inp world0)"
      "JObj []" "[]" downloads0]
  from t h run have "\<exists>evs. snd (run_cleanup_session ?inp world0) = world0\<lparr>trace := evs\<rparr>"
    by metis
  then have "disk (snd (run_cleanup_session ?inp world0)) = disk world0"
    and "kept_files_db (snd (run_cleanup_session ?inp world0)) = kept_files_db world0"
    by auto
  moreover have "selection_phase (JObj []) downloads0 (session0 (Decoded (JObj [])) None []) world0 =
       (Inr (), world0)"
    by (simp add: selection_phase_def seq_def lift_def)
  ultimately show ?thesis using h r by simp
qed

subsection \<open>The order of the deletion and the keep step\<close>








end
